theory Spec2Isabelle
  imports Main
begin

section \<open>JavaScript values shared by the services\<close>

text \<open>
  A value that a JavaScript \<^verbatim>\<open>throw\<close> or a rejected promise carries: an \<^verbatim>\<open>Error\<close> object
  with its name and message, or any other value, kept as what \<^verbatim>\<open>String(v)\<close> gives.
\<close>

datatype thrown = JsError (err_name: string) (err_message: string) | JsOther string

text \<open>\<^verbatim>\<open>error instanceof Error ? error.message : fallback\<close>\<close>

fun message_or :: "string \<Rightarrow> thrown \<Rightarrow> string" where
  "message_or d (JsError n m) = m"
| "message_or d (JsOther s) = d"

text \<open>\<^verbatim>\<open>error instanceof Error ? error.message : String(error)\<close>\<close>

fun message_or_String :: "thrown \<Rightarrow> string" where
  "message_or_String (JsError n m) = m"
| "message_or_String (JsOther s) = s"

text \<open>
  The \<^verbatim>\<open>RegExp\<close> constructor is taken as a parameter wherever the code calls it: it maps a
  pattern to \<^verbatim>\<open>Inl\<close> of the thrown \<^verbatim>\<open>SyntaxError\<close> when the pattern is malformed and to
  \<^verbatim>\<open>Inr\<close> of the compiled pattern's \<^verbatim>\<open>test\<close> function otherwise.
\<close>

type_synonym regexp_ctor = "string \<Rightarrow> thrown + (string \<Rightarrow> bool)"

section \<open>The node store (the part of the Figma document the services touch)\<close>

datatype font = FontName (family: string) (style: string)

text \<open>\<^verbatim>\<open>node.fontName\<close>: a single font, or the sentinel \<^verbatim>\<open>figma.mixed\<close>.\<close>

datatype font_name = Single font | Mixed

datatype node_type = TEXT | FRAME | RECTANGLE

text \<open>
  A scene node as the services read it. \<open>getRangeFontName n i\<close> stands for
  \<^verbatim>\<open>node.getRangeFontName(i, i + 1)\<close>. The assignment \<^verbatim>\<open>node.characters = s\<close> is the update
  of the field \<open>characters\<close>; no other field is changed by the services.
\<close>

record scene_node =
  nid :: string
  ntype :: node_type
  name :: string
  characters :: string
  locked :: bool
  hasMissingFont :: bool
  fontName :: font_name
  getRangeFontName :: "nat \<Rightarrow> font"

text \<open>
  \<^verbatim>\<open>figma.currentPage\<close> is \<open>None\<close> when no page is available, else the nodes of the page in
  document-traversal order. \<^verbatim>\<open>figma.loadFontAsync\<close> is a parameter: \<open>None\<close> when the promise
  resolves, \<open>Some e\<close> when it rejects with \<open>e\<close>.
\<close>

type_synonym page = "scene_node list option"
type_synonym font_loader = "font \<Rightarrow> thrown option"

text \<open>What a write path does to the node store, in the order it does it.\<close>

datatype event = LoadFont font | SetCharacters string string

definition null_page_error :: thrown where
  "null_page_error = JsError ''TypeError'' ''Cannot read properties of null''"

section \<open>node.service.ts\<close>

subsection \<open>getTranslatableNodeCount\<close>

text \<open>
  The whole body is inside \<^verbatim>\<open>try\<close>; the \<^verbatim>\<open>catch\<close> returns 0. A node counts when its name is
  non-empty and the pattern matches it.
\<close>

definition getTranslatableNodeCount :: "regexp_ctor \<Rightarrow> page \<Rightarrow> string \<Rightarrow> nat" where
  "getTranslatableNodeCount RegExp currentPage NODE_NAME_PATTERN =
     (case currentPage of
        None \<Rightarrow> 0
      | Some nodes \<Rightarrow>
          (case RegExp NODE_NAME_PATTERN of
             Inl err \<Rightarrow> 0
           | Inr test \<Rightarrow>
               (let allTextNodes = filter (\<lambda>n. ntype n = TEXT) nodes;
                    textNodes = filter (\<lambda>n. name n \<noteq> [] \<and> test (name n)) allTextNodes
                in length textNodes)))"

subsection \<open>getTranslatableNodes\<close>

record TextNodeInfo =
  info_id :: string
  info_name :: string
  info_characters :: string

definition node_info :: "scene_node \<Rightarrow> TextNodeInfo" where
  "node_info node = \<lparr>info_id = nid node, info_name = name node, info_characters = characters node\<rparr>"

text \<open>No \<^verbatim>\<open>try\<close> here: what the constructor throws leaves the function.\<close>

definition getTranslatableNodes :: "regexp_ctor \<Rightarrow> page \<Rightarrow> string \<Rightarrow> thrown + TextNodeInfo list" where
  "getTranslatableNodes RegExp currentPage NODE_NAME_PATTERN =
     (case RegExp NODE_NAME_PATTERN of
        Inl err \<Rightarrow> Inl err
      | Inr test \<Rightarrow>
          (case currentPage of
             None \<Rightarrow> Inl null_page_error
           | Some nodes \<Rightarrow>
               (let textNodes = filter (\<lambda>n. ntype n = TEXT \<and> test (name n)) nodes
                in Inr (map node_info textNodes))))"

subsection \<open>Loading the fonts of a node\<close>

text \<open>
  The loop \<^verbatim>\<open>for (let i = 0; i < node.characters.length; i++)\<close> of the mixed-font branch, run
  over the positions still to visit. It adds \<^verbatim>\<open>family:style\<close> to the set \<open>uniqueFonts\<close> and
  then awaits \<^verbatim>\<open>loadFontAsync(font)\<close> at every position; the first rejection leaves the loop.
  The result is the rejection if any, the loads issued, and the set (which the code never reads).
\<close>

fun load_range_fonts ::
  "font_loader \<Rightarrow> scene_node \<Rightarrow> nat list \<Rightarrow> string set \<Rightarrow> thrown option \<times> event list \<times> string set" where
  "load_range_fonts loadFontAsync node [] uniqueFonts = (None, [], uniqueFonts)"
| "load_range_fonts loadFontAsync node (i # rest) uniqueFonts =
     (let fnt = getRangeFontName node i;
          uniqueFonts' = insert (family fnt @ '':'' @ style fnt) uniqueFonts
      in case loadFontAsync fnt of
           Some err \<Rightarrow> (Some err, [LoadFont fnt], uniqueFonts')
         | None \<Rightarrow>
             (case load_range_fonts loadFontAsync node rest uniqueFonts' of
                (r, evs, u) \<Rightarrow> (r, LoadFont fnt # evs, u)))"

text \<open>
  \<^verbatim>\<open>if (fontName === figma.mixed) { ...loop... } else { await figma.loadFontAsync(fontName) }\<close>
\<close>

definition load_node_fonts :: "font_loader \<Rightarrow> scene_node \<Rightarrow> thrown option \<times> event list" where
  "load_node_fonts loadFontAsync node =
     (case fontName node of
        Mixed \<Rightarrow>
          (case load_range_fonts loadFontAsync node [0..<length (characters node)] {} of
             (r, evs, u) \<Rightarrow> (r, evs))
      | Single fnt \<Rightarrow> (loadFontAsync fnt, [LoadFont fnt]))"

subsection \<open>applyTranslations\<close>

record Translation =
  key :: string
  val :: string

text \<open>Lines 75-80: entries with an empty key or an empty value are not put into the map.\<close>

definition translationMap :: "Translation list \<Rightarrow> (string \<rightharpoonup> string)" where
  "translationMap translations =
     foldl (\<lambda>m t. if key t \<noteq> [] \<and> val t \<noteq> [] then m(key t \<mapsto> val t) else m) Map.empty translations"

record apply_state =
  count :: nat
  errors :: "string list"
  skipped :: "string list"
  trace :: "event list"

definition init_state :: apply_state where
  "init_state = \<lparr>count = 0, errors = [], skipped = [], trace = []\<rparr>"

text \<open>The body of the loop over \<open>textNodes\<close> (lines 99-135) for one node.\<close>

definition translate_node ::
  "font_loader \<Rightarrow> (string \<rightharpoonup> string) \<Rightarrow> scene_node \<Rightarrow> apply_state \<Rightarrow> scene_node \<times> apply_state" where
  "translate_node loadFontAsync tm node st =
     (if locked node then (node, st\<lparr>skipped := skipped st @ [name node @ '': Locked'']\<rparr>)
      else case tm (name node) of
        None \<Rightarrow> (node, st)
      | Some translation \<Rightarrow>
          if translation = [] then (node, st)
          else if hasMissingFont node
          then (node, st\<lparr>errors := errors st @ [name node @ '': Missing font'']\<rparr>)
          else (case load_node_fonts loadFontAsync node of
                  (Some fontError, evs) \<Rightarrow>
                    (node, st\<lparr>errors := errors st @ [name node @ '': '' @ message_or ''Font error'' fontError],
                              trace := trace st @ evs\<rparr>)
                | (None, evs) \<Rightarrow>
                    (node\<lparr>characters := translation\<rparr>,
                     st\<lparr>count := count st + 1,
                        trace := trace st @ evs @ [SetCharacters (nid node) translation]\<rparr>)))"

text \<open>
  The loop over the page in document order. The nodes that the filter of line 89 drops are
  passed over; the others are mutated in place, so the list returned is the page after the
  loop.
\<close>

fun translate_loop ::
  "font_loader \<Rightarrow> (string \<rightharpoonup> string) \<Rightarrow> (scene_node \<Rightarrow> bool) \<Rightarrow> scene_node list \<Rightarrow> apply_state
     \<Rightarrow> scene_node list \<times> apply_state" where
  "translate_loop loadFontAsync tm sel [] st = ([], st)"
| "translate_loop loadFontAsync tm sel (node # rest) st =
     (if sel node
      then (case translate_node loadFontAsync tm node st of
              (node', st') \<Rightarrow>
                (case translate_loop loadFontAsync tm sel rest st' of
                   (rest', st'') \<Rightarrow> (node' # rest', st'')))
      else (case translate_loop loadFontAsync tm sel rest st of
              (rest', st'') \<Rightarrow> (node # rest', st'')))"

text \<open>Lines 137-147: what is thrown or returned once the loop is over.\<close>

definition apply_outcome :: "apply_state \<Rightarrow> thrown + nat" where
  "apply_outcome st =
     (if count st = 0
      then (if errors st \<noteq> [] then Inl (JsError ''Error'' (''Translation failed: '' @ hd (errors st)))
            else if skipped st \<noteq> [] then Inl (JsError ''Error'' (''All nodes skipped: '' @ hd (skipped st)))
            else Inl (JsError ''Error'' ''No matching translations found for text nodes''))
      else Inr (count st))"

definition no_nodes_error :: thrown where
  "no_nodes_error = JsError ''Error'' ''No translatable text nodes found on current page''"

text \<open>
  The result is what the promise settles to (\<open>Inl\<close> a rejection, \<open>Inr\<close> the count), the
  page after the call, and the loads and writes issued.
\<close>

definition applyTranslations ::
  "regexp_ctor \<Rightarrow> font_loader \<Rightarrow> Translation list \<Rightarrow> string \<Rightarrow> page
     \<Rightarrow> (thrown + nat) \<times> page \<times> event list" where
  "applyTranslations RegExp loadFontAsync translations NODE_NAME_PATTERN currentPage =
     (case RegExp NODE_NAME_PATTERN of
        Inl err \<Rightarrow> (Inl err, currentPage, [])
      | Inr test \<Rightarrow>
          (case currentPage of
             None \<Rightarrow> (Inl null_page_error, currentPage, [])
           | Some nodes \<Rightarrow>
               (let sel = (\<lambda>n. ntype n = TEXT \<and> test (name n));
                    textNodes = filter sel nodes
                in if length textNodes = 0 then (Inl no_nodes_error, currentPage, [])
                   else (case translate_loop loadFontAsync (translationMap translations) sel nodes init_state of
                           (nodes', st) \<Rightarrow> (apply_outcome st, Some nodes', trace st)))))"


subsection \<open>Numbers and values as strings\<close>

text \<open>\<^verbatim>\<open>n.toString()\<close> and the template literal \<^verbatim>\<open>${n}\<close> for a non-negative integer.\<close>

definition digit_char :: "nat \<Rightarrow> char" where
  "digit_char d = ''0123456789'' ! (d mod 10)"

function show_nat :: "nat \<Rightarrow> string" where
  "show_nat n = (if n < 10 then [digit_char n] else show_nat (n div 10) @ [digit_char (n mod 10)])"
  by pat_completeness auto
termination
  by (relation "measure id") auto

declare show_nat.simps [simp del]

definition show_int :: "int \<Rightarrow> string" where
  "show_int i = (if i < 0 then CHR ''-'' # show_nat (nat (- i)) else show_nat (nat i))"

text \<open>
  A value of a record field (\<^verbatim>\<open>Record<string, unknown>\<close>): \<^verbatim>\<open>null\<close>, a string, an integer or a
  boolean; a field that is absent (\<^verbatim>\<open>undefined\<close>) is \<open>None\<close> in the map of fields.
\<close>

datatype js_value = JsNull | JsString string | JsNumber int | JsBoolean bool

fun js_String :: "js_value \<Rightarrow> string" where
  "js_String JsNull = ''null''"
| "js_String (JsString s) = s"
| "js_String (JsNumber i) = show_int i"
| "js_String (JsBoolean b) = (if b then ''true'' else ''false'')"

subsection \<open>Nodes by id\<close>

text \<open>
  \<^verbatim>\<open>figma.getNodeByIdAsync(id)\<close>: the node of the document with that id, or \<^verbatim>\<open>null\<close>. The
  assignment to \<^verbatim>\<open>characters\<close> of the node it returned changes that node in the document.
\<close>

definition getNodeByIdAsync :: "scene_node list \<Rightarrow> string \<Rightarrow> scene_node option" where
  "getNodeByIdAsync nodes i = find (\<lambda>n. nid n = i) nodes"

fun set_characters :: "string \<Rightarrow> string \<Rightarrow> scene_node list \<Rightarrow> scene_node list" where
  "set_characters i s [] = []"
| "set_characters i s (n # ns) =
     (if nid n = i then n\<lparr>characters := s\<rparr> # ns else n # set_characters i s ns)"

subsection \<open>applyRecordToNodes\<close>

record FieldMapping =
  mapping_field :: string
  mapping_node :: string

record record_state =
  rec_nodes :: "scene_node list"
  rec_errors :: "string list"
  rec_trace :: "event list"

text \<open>The body of the loop over \<open>mappings\<close> (lines 158-203) for one mapping.\<close>

definition apply_mapping ::
  "font_loader \<Rightarrow> (string \<rightharpoonup> js_value) \<Rightarrow> FieldMapping \<Rightarrow> record_state \<Rightarrow> record_state" where
  "apply_mapping loadFontAsync recordFields mapping st =
     (case getNodeByIdAsync (rec_nodes st) (mapping_node mapping) of
        None \<Rightarrow> st\<lparr>rec_errors := rec_errors st @ [''Node not found: '' @ mapping_node mapping]\<rparr>
      | Some node \<Rightarrow>
          if ntype node \<noteq> TEXT
          then st\<lparr>rec_errors := rec_errors st @ [''Node not found: '' @ mapping_node mapping]\<rparr>
          else if locked node
          then st\<lparr>rec_errors := rec_errors st @ [''Node is locked: '' @ name node]\<rparr>
          else (case recordFields (mapping_field mapping) of
                  None \<Rightarrow> st
                | Some JsNull \<Rightarrow> st
                | Some fieldValue \<Rightarrow>
                    (let textValue = js_String fieldValue
                     in if hasMissingFont node
                        then st\<lparr>rec_errors := rec_errors st @ [''Missing font in node: '' @ name node]\<rparr>
                        else (case load_node_fonts loadFontAsync node of
                                (Some err, evs) \<Rightarrow>
                                  st\<lparr>rec_errors := rec_errors st @
                                        [''Error applying to node: '' @ message_or ''Unknown error'' err],
                                     rec_trace := rec_trace st @ evs\<rparr>
                              | (None, evs) \<Rightarrow>
                                  st\<lparr>rec_nodes := set_characters (mapping_node mapping) textValue (rec_nodes st),
                                     rec_trace := rec_trace st @ evs @
                                        [SetCharacters (mapping_node mapping) textValue]\<rparr>))))"

text \<open>
  The function returns nothing; the state after it is the document, the errors it hands to
  \<^verbatim>\<open>console.warn\<close>, and the loads and writes issued.
\<close>

definition applyRecordToNodes ::
  "font_loader \<Rightarrow> FieldMapping list \<Rightarrow> (string \<rightharpoonup> js_value) \<Rightarrow> scene_node list \<Rightarrow> record_state" where
  "applyRecordToNodes loadFontAsync mappings recordFields nodes =
     foldl (\<lambda>st mapping. apply_mapping loadFontAsync recordFields mapping st)
       \<lparr>rec_nodes = nodes, rec_errors = [], rec_trace = []\<rparr> mappings"

subsection \<open>updateMultipleNodes\<close>

record update_state =
  upd_nodes :: "scene_node list"
  successCount :: nat
  upd_errors :: "string list"
  upd_trace :: "event list"

record update_result =
  upd_success :: bool
  upd_count :: nat
  upd_errors_field :: "string list option"
  upd_error :: "string option"

text \<open>The body of the loop over \<open>nodeIds\<close> (lines 233-269) for one id.\<close>

definition update_node :: "font_loader \<Rightarrow> string \<Rightarrow> string \<Rightarrow> update_state \<Rightarrow> update_state" where
  "update_node loadFontAsync newText nodeId st =
     (case getNodeByIdAsync (upd_nodes st) nodeId of
        None \<Rightarrow> st\<lparr>upd_errors := upd_errors st @ [''Node '' @ nodeId @ '': Not found or not a text node'']\<rparr>
      | Some node \<Rightarrow>
          if ntype node \<noteq> TEXT
          then st\<lparr>upd_errors := upd_errors st @ [''Node '' @ nodeId @ '': Not found or not a text node'']\<rparr>
          else if hasMissingFont node
          then st\<lparr>upd_errors := upd_errors st @ [name node @ '': Missing font'']\<rparr>
          else (case load_node_fonts loadFontAsync node of
                  (Some nodeError, evs) \<Rightarrow>
                    st\<lparr>upd_errors := upd_errors st @ [''Node '' @ nodeId @ '': '' @ message_or_String nodeError],
                       upd_trace := upd_trace st @ evs\<rparr>
                | (None, evs) \<Rightarrow>
                    st\<lparr>upd_nodes := set_characters nodeId newText (upd_nodes st),
                       successCount := successCount st + 1,
                       upd_trace := upd_trace st @ evs @ [SetCharacters nodeId newText]\<rparr>))"

definition updateMultipleNodes ::
  "font_loader \<Rightarrow> string list \<Rightarrow> string \<Rightarrow> scene_node list \<Rightarrow> update_result \<times> scene_node list \<times> event list" where
  "updateMultipleNodes loadFontAsync nodeIds newText nodes =
     (if length nodeIds = 0
      then (\<lparr>upd_success = False, upd_count = 0, upd_errors_field = None,
              upd_error = Some ''Invalid node IDs''\<rparr>, nodes, [])
      else (let st = foldl (\<lambda>st nodeId. update_node loadFontAsync newText nodeId st)
                       \<lparr>upd_nodes = nodes, successCount = 0, upd_errors = [], upd_trace = []\<rparr> nodeIds
            in (\<lparr>upd_success = (successCount st > 0),
                  upd_count = successCount st,
                  upd_errors_field = (if length (upd_errors st) > 0 then Some (upd_errors st) else None),
                  upd_error = (if successCount st = 0
                               then (case upd_errors st of [] \<Rightarrow> None | e # es \<Rightarrow> Some e)
                               else None)\<rparr>,
                upd_nodes st, upd_trace st)))"

subsection \<open>The loop of applyTranslations, node by node\<close>

text \<open>
  The outcome of the loop for one node, read off the node alone: whether the body reaches
  \<^verbatim>\<open>count++\<close>, the string it pushes on \<open>errors\<close> if any, and the string pushed on
  \<open>skipped\<close> for a locked node.
\<close>

definition node_succeeds :: "font_loader \<Rightarrow> (string \<rightharpoonup> string) \<Rightarrow> scene_node \<Rightarrow> bool" where
  "node_succeeds loadFontAsync tm node =
     (\<not> locked node \<and> \<not> hasMissingFont node \<and>
      (case tm (name node) of None \<Rightarrow> False | Some t \<Rightarrow> t \<noteq> []) \<and>
      fst (load_node_fonts loadFontAsync node) = None)"

definition node_error :: "font_loader \<Rightarrow> (string \<rightharpoonup> string) \<Rightarrow> scene_node \<Rightarrow> string option" where
  "node_error loadFontAsync tm node =
     (if locked node then None
      else case tm (name node) of
        None \<Rightarrow> None
      | Some t \<Rightarrow>
          if t = [] then None
          else if hasMissingFont node then Some (name node @ '': Missing font'')
          else (case fst (load_node_fonts loadFontAsync node) of
                  None \<Rightarrow> None
                | Some e \<Rightarrow> Some (name node @ '': '' @ message_or ''Font error'' e)))"

definition locked_reason :: "scene_node \<Rightarrow> string" where
  "locked_reason node = name node @ '': Locked''"

text \<open>The message of the error thrown when no node was updated, by the spec's order of preference.\<close>

definition zero_success_message :: "string list \<Rightarrow> string list \<Rightarrow> string" where
  "zero_success_message errs skips =
     (if errs \<noteq> [] then ''Translation failed: '' @ hd errs
      else if skips \<noteq> [] then ''All nodes skipped: '' @ hd skips
      else ''No matching translations found for text nodes'')"

subsection \<open>One node of the loop, without the counters\<close>




subsection \<open>Locked nodes across a write path\<close>

text \<open>
  What "locked nodes are read-only" asks of a write path, from the document before to the
  document after: the lock flags are the same and every locked node is untouched.
\<close>

definition locks_respected :: "scene_node list \<Rightarrow> scene_node list \<Rightarrow> bool" where
  "locks_respected before after =
     list_all2 (\<lambda>n n'. locked n' = locked n \<and> (locked n \<longrightarrow> n' = n)) before after"

section \<open>The HTTP transport\<close>

text \<open>
  Strings are byte strings (the UTF-8 form of the JavaScript string). \<^verbatim>\<open>encodeURIComponent\<close>
  keeps the unreserved characters and writes every other byte as \<^verbatim>\<open>%XX\<close>.
\<close>

definition unreserved :: "char \<Rightarrow> bool" where
  "unreserved c =
     (c \<in> set ''abcdefghijklmnopqrstuvwxyzABCDEFGHIJKLMNOPQRSTUVWXYZ0123456789-_.!~*()'' \<or> c = CHR 0x27)"

definition hex_digit :: "nat \<Rightarrow> char" where
  "hex_digit d = ''0123456789ABCDEF'' ! (d mod 16)"

definition encodeURIComponent :: "string \<Rightarrow> string" where
  "encodeURIComponent s =
     concat (map (\<lambda>c. if unreserved c then [c]
                       else [CHR ''%'', hex_digit (of_char c div 16), hex_digit (of_char c mod 16)]) s)"

text \<open>
  \<^verbatim>\<open>String.prototype.trim\<close>, on the ASCII white space (space, tab, line feed, vertical tab,
  form feed, carriage return).
\<close>

definition js_space :: "char \<Rightarrow> bool" where
  "js_space c = (c \<in> {CHR '' '', CHR 0x09, CHR 0x0A, CHR 0x0B, CHR 0x0C, CHR 0x0D})"

definition trim :: "string \<Rightarrow> string" where
  "trim s = rev (dropWhile js_space (rev (dropWhile js_space s)))"

datatype http_method = GET | POST | PUT

text \<open>
  The body of a request is kept as the object handed to \<^verbatim>\<open>JSON.stringify\<close>:
  \<^verbatim>\<open>{fields: {f: {locale: text}, ...}}\<close> is the list of its fields.
\<close>

type_synonym localized = "(string \<times> string) list"

record request =
  url :: string
  http_method :: http_method
  headers :: "(string \<times> string) list"
  body :: "(string \<times> localized) list option"

text \<open>
  A response: \<open>json\<close> is what \<^verbatim>\<open>response.json()\<close> settles to (\<open>Inl\<close> when it rejects), at
  the type \<open>'a\<close> of the payload the endpoint returns; \<open>text_body\<close> is \<^verbatim>\<open>response.text()\<close>.
  \<^verbatim>\<open>response.ok\<close> is true for the statuses 200 to 299.
\<close>

record 'a response =
  status :: nat
  statusText :: string
  text_body :: string
  json :: "thrown + 'a"

definition ok :: "'a response \<Rightarrow> bool" where
  "ok r = (200 \<le> status r \<and> status r \<le> 299)"

text \<open>
  \<^verbatim>\<open>fetchWithTimeout(url, options, API_TIMEOUT)\<close> is a parameter: \<open>Inl\<close> when the promise
  rejects (network error, or the timeout), \<open>Inr\<close> the response otherwise.
\<close>

type_synonym 'a fetcher = "request \<Rightarrow> thrown + 'a response"

text \<open>
  \<^verbatim>\<open>catch (error) { if (error instanceof Error) throw new Error(prefix + error.message); throw error; }\<close>
\<close>

fun rethrow :: "string \<Rightarrow> thrown \<Rightarrow> thrown" where
  "rethrow prefix (JsError n m) = JsError ''Error'' (prefix @ m)"
| "rethrow prefix (JsOther s) = JsOther s"

section \<open>contentful.service.ts\<close>

record ContentfulConfig =
  SPACE_ID :: string
  ENVIRONMENT :: string
  CMA_TOKEN :: string
  CONTENT_TYPE :: string
  KEY_FIELD :: string
  VALUE_FIELD :: string
  NODE_NAME_PATTERN :: string

definition environment_url :: "ContentfulConfig \<Rightarrow> string" where
  "environment_url config =
     ''https://api.contentful.com/spaces/'' @ encodeURIComponent (SPACE_ID config) @
     ''/environments/'' @ encodeURIComponent (ENVIRONMENT config)"

definition bearer :: "ContentfulConfig \<Rightarrow> string \<times> string" where
  "bearer config = (''Authorization'', ''Bearer '' @ CMA_TOKEN config)"

text \<open>\<^verbatim>\<open>{ headers: { 'Authorization': `Bearer ${config.CMA_TOKEN}` } }\<close>\<close>

definition get_request :: "ContentfulConfig \<Rightarrow> string \<Rightarrow> request" where
  "get_request config u = \<lparr>url = u, http_method = GET, headers = [bearer config], body = None\<rparr>"

subsection \<open>Payloads\<close>

text \<open>
  A list payload \<^verbatim>\<open>{total, items: [...]}\<close>: \<open>items\<close> is \<open>None\<close> when the field is absent or
  not an array, \<open>total_items\<close> is \<open>None\<close> when \<^verbatim>\<open>total\<close> is absent.
\<close>

record 'i collection =
  total_items :: "nat option"
  items :: "'i list option"

text \<open>
  An entry \<^verbatim>\<open>{sys: {id, version, archivedVersion?}, fields: {fieldId: ...}}\<close>. A field is a
  plain string (entries read with a \<^verbatim>\<open>locale\<close> parameter) or an object from locale to text.
  \<open>sys\<close> is \<open>None\<close> for an item on which \<^verbatim>\<open>item.sys\<close> is \<^verbatim>\<open>undefined\<close> or \<^verbatim>\<open>null\<close>, so that
  reading a property of it throws a \<^verbatim>\<open>TypeError\<close> (an item that is itself \<^verbatim>\<open>null\<close> throws one
  step earlier, to the same effect). A parsed body that is \<^verbatim>\<open>null\<close> is \<open>None\<close> at the payload
  types \<open>entry option\<close> and \<open>entry collection option\<close>. The message of such a \<^verbatim>\<open>TypeError\<close>
  is the engine's; the wording of V8 is used.
\<close>

record sys_info =
  sys_id :: string
  version :: "nat option"
  archivedVersion :: "nat option"

datatype field_value = Plain string | Localized localized

record entry =
  sys :: "sys_info option"
  entry_fields :: "(string \<times> field_value) list option"

record ContentfulLocaleItem =
  item_code :: "string option"
  item_name :: "string option"

record Locale =
  locale_code :: string
  locale_name :: string

record ContentfulField =
  field_id :: "string option"

record content_type_payload =
  type_fields :: "ContentfulField list option"

subsection \<open>fetchLocales\<close>

definition fetchLocales :: "ContentfulConfig \<Rightarrow> ContentfulLocaleItem collection fetcher \<Rightarrow> thrown + Locale list" where
  "fetchLocales config fetchWithTimeout =
     (let prefix = ''Failed to load locales: '' in
      case fetchWithTimeout (get_request config (environment_url config @ ''/locales'')) of
        Inl err \<Rightarrow> Inl (rethrow prefix err)
      | Inr response \<Rightarrow>
          if \<not> ok response
          then (if status response = 401 \<or> status response = 403
                then Inl (JsError ''Error'' (prefix @ ''Invalid API credentials''))
                else if status response = 404
                then Inl (JsError ''Error'' (prefix @ ''Space or environment not found''))
                else Inl (JsError ''Error'' (prefix @ ''Failed to fetch locales'')))
          else (case json response of
                  Inl err \<Rightarrow> Inl (rethrow prefix err)
                | Inr data \<Rightarrow>
                    (case items data of
                       None \<Rightarrow> Inl (JsError ''Error'' (prefix @ ''Invalid response format''))
                     | Some its \<Rightarrow>
                         Inr (filter (\<lambda>l. trim (locale_code l) \<noteq> [] \<and> trim (locale_name l) \<noteq> [])
                               (map (\<lambda>item. \<lparr>locale_code = (case item_code item of Some c \<Rightarrow> c | None \<Rightarrow> []),
                                              locale_name = (case item_name item of Some n \<Rightarrow> n | None \<Rightarrow> [])\<rparr>)
                                    its)))))"

subsection \<open>fetchTranslations\<close>

text \<open>\<^verbatim>\<open>typeof fields[name] === 'string' ? fields[name] : ''\<close>\<close>

definition string_field :: "entry \<Rightarrow> string \<Rightarrow> string" where
  "string_field item f =
     (case entry_fields item of
        None \<Rightarrow> []
      | Some fs \<Rightarrow> (case map_of fs f of Some (Plain s) \<Rightarrow> s | _ \<Rightarrow> []))"

definition fetchTranslations ::
  "ContentfulConfig \<Rightarrow> entry collection fetcher \<Rightarrow> string \<Rightarrow> thrown + Translation list" where
  "fetchTranslations config fetchWithTimeout locale =
     (if trim locale = [] then Inl (JsError ''Error'' ''Invalid locale'')
      else
       (let prefix = ''Failed to load translations: '';
            u = environment_url config @ ''/entries?content_type='' @ encodeURIComponent (CONTENT_TYPE config)
                  @ ''&locale='' @ encodeURIComponent (trim locale) in
        case fetchWithTimeout (get_request config u) of
          Inl err \<Rightarrow> Inl (rethrow prefix err)
        | Inr response \<Rightarrow>
            if \<not> ok response
            then (if status response = 401 \<or> status response = 403
                  then Inl (JsError ''Error'' (prefix @ ''Invalid API credentials''))
                  else if status response = 404
                  then Inl (JsError ''Error'' (prefix @ ''Content type not found''))
                  else Inl (JsError ''Error'' (prefix @ ''Failed to fetch translations'')))
            else (case json response of
                    Inl err \<Rightarrow> Inl (rethrow prefix err)
                  | Inr data \<Rightarrow>
                      (case items data of
                         None \<Rightarrow> Inl (JsError ''Error'' (prefix @ ''Invalid response format''))
                       | Some its \<Rightarrow>
                           Inr (filter (\<lambda>t. trim (key t) \<noteq> [] \<and> trim (val t) \<noteq> [])
                                 (map (\<lambda>item. \<lparr>key = string_field item (KEY_FIELD config),
                                                val = string_field item (VALUE_FIELD config)\<rparr>) its))))))"

subsection \<open>fetchContentTypes and fetchRecords\<close>

definition fetchContentTypes :: "ContentfulConfig \<Rightarrow> 'i collection fetcher \<Rightarrow> thrown + 'i list" where
  "fetchContentTypes config fetchWithTimeout =
     (let prefix = ''Failed to load content types: '' in
      case fetchWithTimeout (get_request config (environment_url config @ ''/content_types'')) of
        Inl err \<Rightarrow> Inl (rethrow prefix err)
      | Inr response \<Rightarrow>
          if \<not> ok response
          then (if status response = 401 \<or> status response = 403
                then Inl (JsError ''Error'' (prefix @ ''Invalid API credentials''))
                else if status response = 404
                then Inl (JsError ''Error'' (prefix @ ''Space or environment not found''))
                else Inl (JsError ''Error'' (prefix @ ''Failed to fetch content types'')))
          else (case json response of
                  Inl err \<Rightarrow> Inl (rethrow prefix err)
                | Inr data \<Rightarrow>
                    (case items data of
                       None \<Rightarrow> Inl (JsError ''Error'' (prefix @ ''Invalid response format''))
                     | Some its \<Rightarrow> Inr its)))"

definition fetchRecords :: "ContentfulConfig \<Rightarrow> 'i collection fetcher \<Rightarrow> string \<Rightarrow> thrown + 'i list" where
  "fetchRecords config fetchWithTimeout contentType =
     (let prefix = ''Failed to load records: '';
          u = environment_url config @ ''/entries?content_type='' @ encodeURIComponent contentType
                @ ''&limit=100'' in
      case fetchWithTimeout (get_request config u) of
        Inl err \<Rightarrow> Inl (rethrow prefix err)
      | Inr response \<Rightarrow>
          if \<not> ok response
          then (if status response = 401 \<or> status response = 403
                then Inl (JsError ''Error'' (prefix @ ''Invalid API credentials''))
                else if status response = 404
                then Inl (JsError ''Error'' (prefix @ ''Content type not found''))
                else Inl (JsError ''Error'' (prefix @ ''Failed to fetch records'')))
          else (case json response of
                  Inl err \<Rightarrow> Inl (rethrow prefix err)
                | Inr data \<Rightarrow>
                    (case items data of
                       None \<Rightarrow> Inl (JsError ''Error'' (prefix @ ''Invalid response format''))
                     | Some its \<Rightarrow> Inr its)))"

subsection \<open>validateContentType\<close>

record validation_result =
  valid :: bool
  validation_error :: "string option"

definition validateContentType ::
  "ContentfulConfig \<Rightarrow> content_type_payload fetcher \<Rightarrow> validation_result" where
  "validateContentType config fetchWithTimeout =
     (let u = environment_url config @ ''/content_types/'' @ encodeURIComponent (CONTENT_TYPE config) in
      case fetchWithTimeout (get_request config u) of
        Inl err \<Rightarrow> \<lparr>valid = False, validation_error = Some (message_or ''Content type check failed'' err)\<rparr>
      | Inr response \<Rightarrow>
          if \<not> ok response
          then (if status response = 404
                then \<lparr>valid = False, validation_error = Some ''Content type not found''\<rparr>
                else \<lparr>valid = False, validation_error = Some ''Content type check failed''\<rparr>)
          else (case json response of
                  Inl err \<Rightarrow> \<lparr>valid = False, validation_error = Some (message_or ''Content type check failed'' err)\<rparr>
                | Inr data \<Rightarrow>
                    (let fs = (case type_fields data of Some l \<Rightarrow> l | None \<Rightarrow> []);
                         fieldNames = map (\<lambda>f. case field_id f of Some i \<Rightarrow> i | None \<Rightarrow> []) fs
                     in if KEY_FIELD config \<notin> set fieldNames
                        then \<lparr>valid = False, validation_error = Some ''Key field not found in content type''\<rparr>
                        else if VALUE_FIELD config \<notin> set fieldNames
                        then \<lparr>valid = False, validation_error = Some ''Value field not found in content type''\<rparr>
                        else \<lparr>valid = True, validation_error = None\<rparr>)))"

subsection \<open>fetchAllContentfulItems\<close>

definition limit :: nat where
  "limit = 1000"

definition first_url :: "ContentfulConfig \<Rightarrow> string" where
  "first_url config =
     environment_url config @ ''/entries?content_type='' @ encodeURIComponent (CONTENT_TYPE config)
       @ ''&limit='' @ show_nat limit"

definition page_url :: "ContentfulConfig \<Rightarrow> nat \<Rightarrow> string" where
  "page_url config page = first_url config @ ''&skip='' @ show_nat (page * limit)"

text \<open>\<^verbatim>\<open>Math.ceil((total - limit) / limit)\<close>, computed only when \<^verbatim>\<open>total > limit\<close>.\<close>

definition remainingPages :: "nat \<Rightarrow> nat" where
  "remainingPages n = (n - limit + (limit - 1)) div limit"

text \<open>
  One request of the fan-out:
  \<^verbatim>\<open>fetchWithTimeout(pageUrl, ...).then(r => r.json()).catch(err => ({ items: [] }))\<close>.
  The status of the response is not looked at; a body that parses to \<^verbatim>\<open>null\<close> is passed on.
\<close>

definition empty_page :: "entry collection" where
  "empty_page = \<lparr>total_items = None, items = Some []\<rparr>"

definition page_data :: "entry collection option fetcher \<Rightarrow> request \<Rightarrow> entry collection option" where
  "page_data fetchWithTimeout req =
     (case fetchWithTimeout req of
        Inl err \<Rightarrow> Some empty_page
      | Inr r \<Rightarrow> (case json r of Inl err \<Rightarrow> Some empty_page | Inr d \<Rightarrow> d))"

definition null_total_error :: thrown where
  "null_total_error = JsError ''TypeError'' ''Cannot read properties of null (reading 'total')''"

definition null_items_error :: thrown where
  "null_items_error = JsError ''TypeError'' ''Cannot read properties of null (reading 'items')''"

definition no_sys_error :: thrown where
  "no_sys_error = JsError ''TypeError'' ''Cannot read properties of undefined (reading 'archivedVersion')''"

text \<open>
  Lines 276-310: the pages in the order of \<open>allPages\<close>, or what is thrown there, together with
  the requests issued, in order.
\<close>

definition fetch_pages ::
  "ContentfulConfig \<Rightarrow> entry collection option fetcher
     \<Rightarrow> (thrown + entry collection option list) \<times> request list" where
  "fetch_pages config fetchWithTimeout =
     (let firstReq = get_request config (first_url config) in
      case fetchWithTimeout firstReq of
        Inl err \<Rightarrow> (Inl err, [firstReq])
      | Inr firstResponse \<Rightarrow>
          if \<not> ok firstResponse
          then (Inl (JsError ''Error''
                  (''HTTP '' @ show_nat (status firstResponse) @ '': '' @ statusText firstResponse)),
                [firstReq])
          else (case json firstResponse of
                  Inl err \<Rightarrow> (Inl err, [firstReq])
                | Inr None \<Rightarrow> (Inl null_total_error, [firstReq])
                | Inr (Some firstData) \<Rightarrow>
                    (let totalItems = (case total_items firstData of Some t \<Rightarrow> t | None \<Rightarrow> 0)
                     in if totalItems > limit
                        then (let pageRequests =
                                    map (\<lambda>page. get_request config (page_url config page))
                                      [1..<Suc (remainingPages totalItems)]
                              in (Inr (Some firstData # map (page_data fetchWithTimeout) pageRequests),
                                  firstReq # pageRequests))
                        else (Inr [Some firstData], [firstReq]))))"

text \<open>
  \<^verbatim>\<open>if (f && typeof f === 'object') x = f['en-US'] || f[Object.keys(f)[0]]\<close>; \<open>None\<close> is the
  \<^verbatim>\<open>null\<close> or \<^verbatim>\<open>undefined\<close> left in \<open>x\<close>.
\<close>

definition first_locale :: "localized \<Rightarrow> string option" where
  "first_locale l = (case l of [] \<Rightarrow> None | (k, v) # rest \<Rightarrow> Some v)"

definition unwrap :: "field_value option \<Rightarrow> string option" where
  "unwrap f =
     (case f of
        Some (Localized l) \<Rightarrow>
          (case map_of l ''en-US'' of
             Some s \<Rightarrow> if s \<noteq> [] then Some s else first_locale l
           | None \<Rightarrow> first_locale l)
      | _ \<Rightarrow> None)"

definition entry_key :: "ContentfulConfig \<Rightarrow> entry \<Rightarrow> string option" where
  "entry_key config item =
     unwrap (map_of (case entry_fields item of Some fs \<Rightarrow> fs | None \<Rightarrow> []) (KEY_FIELD config))"

definition entry_value :: "ContentfulConfig \<Rightarrow> entry \<Rightarrow> string option" where
  "entry_value config item =
     unwrap (map_of (case entry_fields item of Some fs \<Rightarrow> fs | None \<Rightarrow> []) (VALUE_FIELD config))"

text \<open>
  The body of the inner loop (lines 317-346). The map holds the own properties of the object
  \<open>items\<close>; a binding is the pair of \<^verbatim>\<open>value\<close> and \<^verbatim>\<open>id\<close>. \<open>items\<close> is a plain object
  \<^verbatim>\<open>{}\<close>, so the assignment \<^verbatim>\<open>items[key] = {...}\<close> with the key \<^verbatim>\<open>__proto__\<close> runs the setter
  inherited from \<^verbatim>\<open>Object.prototype\<close>: it replaces the prototype of \<open>items\<close> and adds no own
  property. An item without \<open>sys\<close> throws when \<^verbatim>\<open>item.sys.archivedVersion\<close> is read.
\<close>

definition process_item ::
  "ContentfulConfig \<Rightarrow> (string \<rightharpoonup> string \<times> string) \<Rightarrow> entry
     \<Rightarrow> thrown + (string \<rightharpoonup> string \<times> string)" where
  "process_item config acc item =
     (case sys item of
        None \<Rightarrow> Inl no_sys_error
      | Some s \<Rightarrow>
          if archivedVersion s \<noteq> None then Inr acc
          else (case (entry_key config item, entry_value config item) of
                  (Some k, Some v) \<Rightarrow>
                    if k \<noteq> [] \<and> v \<noteq> []
                    then (if k = ''__proto__'' then Inr acc else Inr (acc(k \<mapsto> (v, sys_id s))))
                    else Inr acc
                | _ \<Rightarrow> Inr acc))"

text \<open>The inner loop \<^verbatim>\<open>for (const item of pageData.items)\<close>; a throw leaves it.\<close>

fun process_items ::
  "ContentfulConfig \<Rightarrow> (string \<rightharpoonup> string \<times> string) \<Rightarrow> entry list
     \<Rightarrow> thrown + (string \<rightharpoonup> string \<times> string)" where
  "process_items config acc [] = Inr acc"
| "process_items config acc (item # rest) =
     (case process_item config acc item of
        Inl err \<Rightarrow> Inl err
      | Inr acc' \<Rightarrow> process_items config acc' rest)"

text \<open>
  \<^verbatim>\<open>if (pageData.items && Array.isArray(pageData.items)) { ... }\<close>; a page that is \<^verbatim>\<open>null\<close>
  throws when \<^verbatim>\<open>pageData.items\<close> is read.
\<close>

definition process_page ::
  "ContentfulConfig \<Rightarrow> (string \<rightharpoonup> string \<times> string) \<Rightarrow> entry collection option
     \<Rightarrow> thrown + (string \<rightharpoonup> string \<times> string)" where
  "process_page config acc pageData =
     (case pageData of
        None \<Rightarrow> Inl null_items_error
      | Some p \<Rightarrow> (case items p of None \<Rightarrow> Inr acc | Some its \<Rightarrow> process_items config acc its))"

text \<open>The outer loop \<^verbatim>\<open>for (const pageData of allPages)\<close> (lines 315-348).\<close>

fun merge_loop ::
  "ContentfulConfig \<Rightarrow> (string \<rightharpoonup> string \<times> string) \<Rightarrow> entry collection option list
     \<Rightarrow> thrown + (string \<rightharpoonup> string \<times> string)" where
  "merge_loop config acc [] = Inr acc"
| "merge_loop config acc (pageData # rest) =
     (case process_page config acc pageData of
        Inl err \<Rightarrow> Inl err
      | Inr acc' \<Rightarrow> merge_loop config acc' rest)"

definition merge_pages ::
  "ContentfulConfig \<Rightarrow> entry collection option list \<Rightarrow> thrown + (string \<rightharpoonup> string \<times> string)" where
  "merge_pages config allPages = merge_loop config Map.empty allPages"

text \<open>
  Everything from the first request to the end of the merge is inside the \<^verbatim>\<open>try\<close>; the
  \<^verbatim>\<open>catch\<close> rethrows with the prefix of the function.
\<close>

definition fetchAllContentfulItems ::
  "ContentfulConfig \<Rightarrow> entry collection option fetcher
     \<Rightarrow> (thrown + (string \<rightharpoonup> string \<times> string)) \<times> request list" where
  "fetchAllContentfulItems config fetchWithTimeout =
     (case fetch_pages config fetchWithTimeout of
        (Inl err, reqs) \<Rightarrow> (Inl (rethrow ''Failed to fetch Contentful items: '' err), reqs)
      | (Inr allPages, reqs) \<Rightarrow>
          (case merge_pages config allPages of
             Inl err \<Rightarrow> (Inl (rethrow ''Failed to fetch Contentful items: '' err), reqs)
           | Inr m \<Rightarrow> (Inr m, reqs)))"

subsection \<open>The merged map, entry by entry\<close>

text \<open>
  The entries of the pages in the order the loops visit them. An entry is usable when it is
  not archived and both its key and its value unwrap to a non-empty string; it is stored when
  it is usable and its key is not \<^verbatim>\<open>__proto__\<close>; a stored entry writes the binding
  \<open>key \<mapsto> (value, id)\<close>. The content of the pages is readable when no page is \<^verbatim>\<open>null\<close> and
  every item has a \<open>sys\<close>.
\<close>

definition entries_of :: "entry collection option list \<Rightarrow> entry list" where
  "entries_of allPages =
     concat (map (\<lambda>p. case p of None \<Rightarrow> []
                        | Some d \<Rightarrow> (case items d of None \<Rightarrow> [] | Some its \<Rightarrow> its)) allPages)"

definition usable :: "ContentfulConfig \<Rightarrow> entry \<Rightarrow> bool" where
  "usable config item =
     ((case sys item of None \<Rightarrow> False | Some s \<Rightarrow> archivedVersion s = None) \<and>
      (case entry_key config item of None \<Rightarrow> False | Some k \<Rightarrow> k \<noteq> []) \<and>
      (case entry_value config item of None \<Rightarrow> False | Some v \<Rightarrow> v \<noteq> []))"

definition stored :: "ContentfulConfig \<Rightarrow> entry \<Rightarrow> bool" where
  "stored config item = (usable config item \<and> entry_key config item \<noteq> Some ''__proto__'')"

definition binding :: "ContentfulConfig \<Rightarrow> entry \<Rightarrow> string \<times> string \<times> string" where
  "binding config item =
     (the (entry_key config item), the (entry_value config item), sys_id (the (sys item)))"

definition readable :: "entry collection option list \<Rightarrow> bool" where
  "readable allPages =
     list_all (\<lambda>p. case p of None \<Rightarrow> False
                     | Some d \<Rightarrow> (case items d of None \<Rightarrow> True
                                   | Some its \<Rightarrow> list_all (\<lambda>e. sys e \<noteq> None) its)) allPages"

text \<open>A page without its archived entries.\<close>

definition is_archived :: "entry \<Rightarrow> bool" where
  "is_archived e = (case sys e of None \<Rightarrow> False | Some s \<Rightarrow> archivedVersion s \<noteq> None)"

definition drop_archived :: "entry collection option \<Rightarrow> entry collection option" where
  "drop_archived p =
     map_option (\<lambda>d. d\<lparr>items := map_option (filter (\<lambda>e. \<not> is_archived e)) (items d)\<rparr>) p"

text \<open>
  What one request contributes, read off the transport: the entries of its page when it is
  answered with a body that parses to an object with an array of items (nothing otherwise),
  and whether reading that body throws in the merge (the body is \<^verbatim>\<open>null\<close>, or an item has no
  \<open>sys\<close>).
\<close>

definition received_entries :: "entry collection option fetcher \<Rightarrow> request \<Rightarrow> entry list" where
  "received_entries fetchWithTimeout req =
     (case fetchWithTimeout req of
        Inl err \<Rightarrow> []
      | Inr r \<Rightarrow>
          (case json r of
             Inr (Some d) \<Rightarrow> (case items d of Some its \<Rightarrow> its | None \<Rightarrow> [])
           | _ \<Rightarrow> []))"

definition body_throws :: "entry collection option fetcher \<Rightarrow> request \<Rightarrow> bool" where
  "body_throws fetchWithTimeout req =
     (case fetchWithTimeout req of
        Inl err \<Rightarrow> False
      | Inr r \<Rightarrow>
          (case json r of
             Inl err \<Rightarrow> False
           | Inr None \<Rightarrow> True
           | Inr (Some d) \<Rightarrow>
               (case items d of Some its \<Rightarrow> \<not> list_all (\<lambda>e. sys e \<noteq> None) its | None \<Rightarrow> False)))"

text \<open>
  The requests of a complete walk over \<open>n\<close> declared entries in pages of 1000, written out:
  the first page, then the pages \<open>1, ..., \<lceil>(n - 1000) / 1000\<rceil>\<close> at \<^verbatim>\<open>skip = page * 1000\<close> when
  \<open>n\<close> exceeds 1000.
\<close>

definition entries_url :: "ContentfulConfig \<Rightarrow> string" where
  "entries_url config =
     ''https://api.contentful.com/spaces/'' @ encodeURIComponent (SPACE_ID config) @
     ''/environments/'' @ encodeURIComponent (ENVIRONMENT config) @
     ''/entries?content_type='' @ encodeURIComponent (CONTENT_TYPE config) @ ''&limit=1000''"

definition first_request :: "ContentfulConfig \<Rightarrow> request" where
  "first_request config =
     \<lparr>url = entries_url config, http_method = GET,
      headers = [(''Authorization'', ''Bearer '' @ CMA_TOKEN config)], body = None\<rparr>"

definition page_request :: "ContentfulConfig \<Rightarrow> nat \<Rightarrow> request" where
  "page_request config page =
     \<lparr>url = entries_url config @ ''&skip='' @ show_nat (page * 1000), http_method = GET,
      headers = [(''Authorization'', ''Bearer '' @ CMA_TOKEN config)], body = None\<rparr>"

definition later_pages :: "nat \<Rightarrow> nat list" where
  "later_pages n = (if n > 1000 then [1..<Suc ((n - 1) div 1000)] else [])"

definition expected_requests :: "ContentfulConfig \<Rightarrow> nat \<Rightarrow> request list" where
  "expected_requests config n = first_request config # map (page_request config) (later_pages n)"

text \<open>
  The first request fails: it rejects, or its status is not ok, or its body does not parse
  to an object.
\<close>

definition first_page_fails :: "ContentfulConfig \<Rightarrow> entry collection option fetcher \<Rightarrow> bool" where
  "first_page_fails config fetchWithTimeout =
     (case fetchWithTimeout (first_request config) of
        Inl err \<Rightarrow> True
      | Inr r \<Rightarrow> \<not> ok r \<or> (case json r of Inl err \<Rightarrow> True | Inr None \<Rightarrow> True | Inr (Some d) \<Rightarrow> False))"

text \<open>\<^verbatim>\<open>firstData.total || 0\<close>, the total that a first page declares.\<close>

definition declared_total :: "entry collection \<Rightarrow> nat" where
  "declared_total d = (case total_items d of Some t \<Rightarrow> t | None \<Rightarrow> 0)"

subsection \<open>saveItemToContentful\<close>

record ContentfulSaveItem =
  save_key :: string
  save_value :: string
  isUpdate :: bool
  entryId :: "string option"

text \<open>The fields of \<open>errorDetails\<close> that the code sets (\<^verbatim>\<open>stack\<close> is left out).\<close>

record errorDetails =
  details_status :: "nat option"
  details_response :: "string option"
  operation :: "string option"
  details_entryId :: "string option"
  details_version :: "nat option"
  details_key :: "string option"
  exception :: "string option"

definition no_details :: errorDetails where
  "no_details = \<lparr>details_status = None, details_response = None, operation = None,
                  details_entryId = None, details_version = None, details_key = None,
                  exception = None\<rparr>"

record ContentfulSaveResult =
  success :: bool
  error :: "string option"
  details :: "errorDetails option"

text \<open>The \<^verbatim>\<open>catch\<close> at the end of the function (lines 495-509).\<close>

fun exception_result :: "ContentfulSaveItem \<Rightarrow> thrown \<Rightarrow> ContentfulSaveResult" where
  "exception_result item (JsError n m) =
     \<lparr>success = False, error = Some m,
      details = Some (no_details\<lparr>exception := Some n,
                        operation := Some (if isUpdate item then ''update'' else ''create'')\<rparr>)\<rparr>"
| "exception_result item (JsOther s) =
     \<lparr>success = False, error = Some ''Unknown error occurred'',
      details = Some (no_details\<lparr>exception := Some s\<rparr>)\<rparr>"

text \<open>
  \<^verbatim>\<open>e.sys.version.toString()\<close> and \<^verbatim>\<open>e.sys.id\<close>: they throw when the body \<^verbatim>\<open>e\<close> is \<^verbatim>\<open>null\<close>, when
  \<^verbatim>\<open>e.sys\<close> is absent (the message names the property read first, \<open>prop\<close>) and when
  \<^verbatim>\<open>version\<close> is absent; otherwise the id and the version.
\<close>

definition null_entry_error :: thrown where
  "null_entry_error = JsError ''TypeError'' ''Cannot read properties of null (reading 'sys')''"

definition no_entry_sys_error :: "string \<Rightarrow> thrown" where
  "no_entry_sys_error prop =
     JsError ''TypeError'' (''Cannot read properties of undefined (reading '' @ [CHR 39] @ prop @ [CHR 39] @ '')'')"

definition no_version_error :: thrown where
  "no_version_error = JsError ''TypeError'' ''Cannot read properties of undefined (reading 'toString')''"

definition entry_sys :: "string \<Rightarrow> entry option \<Rightarrow> thrown + sys_info" where
  "entry_sys prop e =
     (case e of
        None \<Rightarrow> Inl null_entry_error
      | Some x \<Rightarrow> (case sys x of None \<Rightarrow> Inl (no_entry_sys_error prop) | Some s \<Rightarrow> Inr s))"

definition entry_version :: "string \<Rightarrow> entry option \<Rightarrow> thrown + string \<times> nat" where
  "entry_version prop e =
     (case entry_sys prop e of
        Inl err \<Rightarrow> Inl err
      | Inr s \<Rightarrow> (case version s of None \<Rightarrow> Inl no_version_error | Some v \<Rightarrow> Inr (sys_id s, v)))"

definition stage_failure ::
  "string \<Rightarrow> 'a response \<Rightarrow> errorDetails \<Rightarrow> ContentfulSaveResult" where
  "stage_failure msg r d =
     \<lparr>success = False, error = Some (msg @ '' ('' @ show_nat (status r) @ '')''),
      details = Some (d\<lparr>details_status := Some (status r), details_response := Some (text_body r)\<rparr>)\<rparr>"

definition field_body :: "ContentfulConfig \<Rightarrow> ContentfulSaveItem \<Rightarrow> (string \<times> localized) list" where
  "field_body config item =
     [(KEY_FIELD config, [(''en-US'', save_key item)]), (VALUE_FIELD config, [(''en-US'', save_value item)])]"

definition content_type_json :: "string \<times> string" where
  "content_type_json = (''Content-Type'', ''application/vnd.contentful.management.v1+json'')"

definition entry_url :: "ContentfulConfig \<Rightarrow> string \<Rightarrow> string" where
  "entry_url config i = environment_url config @ ''/entries/'' @ i"

definition update_request :: "ContentfulConfig \<Rightarrow> ContentfulSaveItem \<Rightarrow> string \<Rightarrow> nat \<Rightarrow> request" where
  "update_request config item i v =
     \<lparr>url = entry_url config i, http_method = PUT,
      headers = [bearer config, content_type_json, (''X-Contentful-Version'', show_nat v)],
      body = Some (field_body config item)\<rparr>"

definition publish_request :: "ContentfulConfig \<Rightarrow> string \<Rightarrow> nat \<Rightarrow> request" where
  "publish_request config i v =
     \<lparr>url = entry_url config i @ ''/published'', http_method = PUT,
      headers = [bearer config, (''X-Contentful-Version'', show_nat v)], body = None\<rparr>"

definition create_request :: "ContentfulConfig \<Rightarrow> ContentfulSaveItem \<Rightarrow> request" where
  "create_request config item =
     \<lparr>url = environment_url config @ ''/entries'', http_method = POST,
      headers = [bearer config, content_type_json, (''X-Contentful-Content-Type'', CONTENT_TYPE config)],
      body = Some (field_body config item)\<rparr>"

text \<open>
  The update branch (lines 372-442) for the entry id \<open>i\<close>, in its three stages: the result and
  the requests issued, in order. A version header is built before its request is sent, so a
  missing version throws before the request.
\<close>

text \<open>Lines 421-442: publish the updated entry at the version \<open>v'\<close> the update returned.\<close>

definition publish_stage ::
  "ContentfulConfig \<Rightarrow> entry option fetcher \<Rightarrow> ContentfulSaveItem \<Rightarrow> string \<Rightarrow> nat \<Rightarrow> request list
     \<Rightarrow> ContentfulSaveResult \<times> request list" where
  "publish_stage config fetchWithTimeout item i v' sent =
     (let pubReq = publish_request config i v' in
      case fetchWithTimeout pubReq of
        Inl err \<Rightarrow> (exception_result item err, sent @ [pubReq])
      | Inr publishResponse \<Rightarrow>
          if \<not> ok publishResponse
          then (stage_failure ''Publish failed'' publishResponse
                  (no_details\<lparr>operation := Some ''publish'', details_entryId := Some i\<rparr>),
                sent @ [pubReq])
          else (\<lparr>success = True, error = None, details = None\<rparr>, sent @ [pubReq]))"

text \<open>Lines 395-419: submit the update with the version \<open>v\<close> read from the entry.\<close>

definition update_stage ::
  "ContentfulConfig \<Rightarrow> entry option fetcher \<Rightarrow> ContentfulSaveItem \<Rightarrow> string \<Rightarrow> nat \<Rightarrow> request list
     \<Rightarrow> ContentfulSaveResult \<times> request list" where
  "update_stage config fetchWithTimeout item i v sent =
     (let putReq = update_request config item i v in
      case fetchWithTimeout putReq of
        Inl err \<Rightarrow> (exception_result item err, sent @ [putReq])
      | Inr updateResponse \<Rightarrow>
          if \<not> ok updateResponse
          then (stage_failure ''Update failed'' updateResponse
                  (no_details\<lparr>operation := Some ''update'', details_entryId := Some i,
                     details_version := Some v\<rparr>),
                sent @ [putReq])
          else (case json updateResponse of
                  Inl err \<Rightarrow> (exception_result item err, sent @ [putReq])
                | Inr updatedEntry \<Rightarrow>
                    (case entry_version ''version'' updatedEntry of
                       Inl err \<Rightarrow> (exception_result item err, sent @ [putReq])
                     | Inr (i', v') \<Rightarrow>
                         publish_stage config fetchWithTimeout item i v' (sent @ [putReq]))))"

text \<open>Lines 373-393: read the entry for its current version, then the two stages above.\<close>

definition save_update ::
  "ContentfulConfig \<Rightarrow> entry option fetcher \<Rightarrow> ContentfulSaveItem \<Rightarrow> string \<Rightarrow> ContentfulSaveResult \<times> request list" where
  "save_update config fetchWithTimeout item i =
     (let getReq = get_request config (entry_url config i) in
      case fetchWithTimeout getReq of
        Inl err \<Rightarrow> (exception_result item err, [getReq])
      | Inr getResponse \<Rightarrow>
          if \<not> ok getResponse
          then (stage_failure ''Could not fetch entry'' getResponse
                  (no_details\<lparr>operation := Some ''fetch'', details_entryId := Some i\<rparr>), [getReq])
          else (case json getResponse of
                  Inl err \<Rightarrow> (exception_result item err, [getReq])
                | Inr currentEntry \<Rightarrow>
                    (case entry_version ''version'' currentEntry of
                       Inl err \<Rightarrow> (exception_result item err, [getReq])
                     | Inr (i', v) \<Rightarrow> update_stage config fetchWithTimeout item i v [getReq])))"

text \<open>The create branch (lines 444-494): create the entry, then publish the id it was given.\<close>

definition publish_new_stage ::
  "ContentfulConfig \<Rightarrow> entry option fetcher \<Rightarrow> ContentfulSaveItem \<Rightarrow> string \<Rightarrow> nat \<Rightarrow> request list
     \<Rightarrow> ContentfulSaveResult \<times> request list" where
  "publish_new_stage config fetchWithTimeout item i v sent =
     (let pubReq = publish_request config i v in
      case fetchWithTimeout pubReq of
        Inl err \<Rightarrow> (exception_result item err, sent @ [pubReq])
      | Inr publishResponse \<Rightarrow>
          if \<not> ok publishResponse
          then (stage_failure ''Created but publish failed'' publishResponse
                  (no_details\<lparr>operation := Some ''publish-new'', details_entryId := Some i\<rparr>),
                sent @ [pubReq])
          else (\<lparr>success = True, error = None, details = None\<rparr>, sent @ [pubReq]))"

definition save_create ::
  "ContentfulConfig \<Rightarrow> entry option fetcher \<Rightarrow> ContentfulSaveItem \<Rightarrow> ContentfulSaveResult \<times> request list" where
  "save_create config fetchWithTimeout item =
     (let postReq = create_request config item in
      case fetchWithTimeout postReq of
        Inl err \<Rightarrow> (exception_result item err, [postReq])
      | Inr createResponse \<Rightarrow>
          if \<not> ok createResponse
          then (stage_failure ''Create failed'' createResponse
                  (no_details\<lparr>operation := Some ''create'', details_key := Some (save_key item)\<rparr>), [postReq])
          else (case json createResponse of
                  Inl err \<Rightarrow> (exception_result item err, [postReq])
                | Inr newEntry \<Rightarrow>
                    (case entry_version ''id'' newEntry of
                       Inl err \<Rightarrow> (exception_result item err, [postReq])
                     | Inr (i, v) \<Rightarrow>
                         publish_new_stage config fetchWithTimeout item i v [postReq])))"

text \<open>\<^verbatim>\<open>if (item.isUpdate && item.entryId)\<close>: the id must be present and not the empty string.\<close>

definition saveItemToContentful ::
  "ContentfulConfig \<Rightarrow> entry option fetcher \<Rightarrow> ContentfulSaveItem \<Rightarrow> ContentfulSaveResult \<times> request list" where
  "saveItemToContentful config fetchWithTimeout item =
     (case entryId item of
        Some i \<Rightarrow>
          if isUpdate item \<and> i \<noteq> [] then save_update config fetchWithTimeout item i
          else save_create config fetchWithTimeout item
      | None \<Rightarrow> save_create config fetchWithTimeout item)"

section \<open>Concrete inputs\<close>

text \<open>
  A fragment of the \<^verbatim>\<open>RegExp\<close> constructor, enough for the default pattern \<^verbatim>\<open>^jams_\<close>. On
  \<^verbatim>\<open>^w\<close> and \<^verbatim>\<open>w\<close>, with \<open>w\<close> made of letters, digits and \<^verbatim>\<open>_\<close>, it agrees with JavaScript:
  the test is "starts with \<open>w\<close>" and "contains \<open>w\<close>". Every other pattern is outside the
  fragment and is answered with a \<^verbatim>\<open>SyntaxError\<close>; of those, only patterns that JavaScript
  rejects too (an unterminated character class such as \<^verbatim>\<open>[invalid\<close>) are used below.
\<close>

definition word_char :: "char \<Rightarrow> bool" where
  "word_char c = (c \<in> set ''abcdefghijklmnopqrstuvwxyzABCDEFGHIJKLMNOPQRSTUVWXYZ0123456789_'')"

fun starts_with :: "string \<Rightarrow> string \<Rightarrow> bool" where
  "starts_with [] s = True"
| "starts_with (c # w) [] = False"
| "starts_with (c # w) (d # s) = (c = d \<and> starts_with w s)"

fun contains :: "string \<Rightarrow> string \<Rightarrow> bool" where
  "contains w [] = (w = [])"
| "contains w (d # s) = (starts_with w (d # s) \<or> contains w s)"

definition RegExp_fragment :: regexp_ctor where
  "RegExp_fragment p =
     (if list_all word_char p then Inr (contains p)
      else if p \<noteq> [] \<and> hd p = CHR ''^'' \<and> list_all word_char (tl p) then Inr (starts_with (tl p))
      else Inl (JsError ''SyntaxError'' (''Invalid regular expression: /'' @ p @ ''/'')))"

definition always_loads :: font_loader where
  "always_loads fnt = None"

definition arial_regular :: font where
  "arial_regular = FontName ''Arial'' ''Regular''"

definition arial_bold :: font where
  "arial_bold = FontName ''Arial'' ''Bold''"

text \<open>The helper \<^verbatim>\<open>createMockTextNode\<close> of the unit tests, with its default options.\<close>

definition createMockTextNode :: "string \<Rightarrow> string \<Rightarrow> string \<Rightarrow> scene_node" where
  "createMockTextNode i n c =
     \<lparr>nid = i, ntype = TEXT, name = n, characters = c, locked = False, hasMissingFont = False,
      fontName = Single arial_regular, getRangeFontName = (\<lambda>k. arial_bold)\<rparr>"

definition jams_hello :: scene_node where
  "jams_hello = createMockTextNode ''1'' ''jams_hello'' ''Old''"

definition jams_world :: scene_node where
  "jams_world = createMockTextNode ''2'' ''jams_world'' ''Old''"

definition hello_translation :: "Translation list" where
  "hello_translation = [\<lparr>key = ''jams_hello'', val = ''New Hello''\<rparr>]"

definition locked_title :: scene_node where
  "locked_title = (createMockTextNode ''node1'' ''Title'' ''Old Title'')\<lparr>locked := True\<rparr>"

text \<open>\<^verbatim>\<open>createMockTextNode('1', 'jams_hello', 'AB', { mixedFonts: true })\<close> of the unit tests.\<close>

definition mixed_AB :: scene_node where
  "mixed_AB = (createMockTextNode ''1'' ''jams_hello'' ''AB'')\<lparr>fontName := Mixed\<rparr>"

text \<open>The configuration of the unit tests.\<close>

definition validConfig :: ContentfulConfig where
  "validConfig = \<lparr>SPACE_ID = ''space123'', ENVIRONMENT = ''master'', CMA_TOKEN = ''token123'',
                   CONTENT_TYPE = ''translation'', KEY_FIELD = ''key'', VALUE_FIELD = ''value'',
                   NODE_NAME_PATTERN = ''^jams_''\<rparr>"

definition entry_E1 :: "nat \<Rightarrow> entry" where
  "entry_E1 v =
     \<lparr>sys = Some \<lparr>sys_id = ''E1'', version = Some v, archivedVersion = None\<rparr>, entry_fields = None\<rparr>"

definition ok_entry :: "entry \<Rightarrow> entry option response" where
  "ok_entry e = \<lparr>status = 200, statusText = ''OK'', text_body = [], json = Inr (Some e)\<rparr>"

text \<open>
  A server holding the entry \<^verbatim>\<open>E1\<close> at version 5 that answers every update with 409 Conflict
  and would accept a publish.
\<close>

definition conflict_server :: "entry option fetcher" where
  "conflict_server req =
     (if http_method req = GET then Inr (ok_entry (entry_E1 5))
      else if body req \<noteq> None
      then Inr \<lparr>status = 409, statusText = ''Conflict'', text_body = ''VersionMismatch'',
                json = Inl (JsError ''SyntaxError'' ''Unexpected token'')\<rparr>
      else Inr (ok_entry (entry_E1 6)))"

text \<open>
  A server holding \<^verbatim>\<open>E1\<close> at version 5 that accepts an update (the entry is then at version 6)
  and a publish (version 7).
\<close>

definition accepting_server :: "entry option fetcher" where
  "accepting_server req =
     (if http_method req = GET then Inr (ok_entry (entry_E1 5))
      else if body req \<noteq> None then Inr (ok_entry (entry_E1 6))
      else Inr (ok_entry (entry_E1 7)))"

definition update_E1 :: ContentfulSaveItem where
  "update_E1 = \<lparr>save_key = ''existing_key'', save_value = ''Updated Value'', isUpdate = True,
                 entryId = Some ''E1''\<rparr>"

text \<open>The entries of the unit test "should handle pagination for large datasets".\<close>

definition numbered_entry :: "nat \<Rightarrow> entry" where
  "numbered_entry i =
     \<lparr>sys = Some \<lparr>sys_id = ''entry'' @ show_nat i, version = Some 1, archivedVersion = None\<rparr>,
      entry_fields = Some [(''key'', Localized [(''en-US'', ''key'' @ show_nat i)]),
                           (''value'', Localized [(''en-US'', ''value'' @ show_nat i)])]\<rparr>"

definition numbered_entries :: "nat \<Rightarrow> nat \<Rightarrow> entry list" where
  "numbered_entries a b = map numbered_entry [a..<b]"

definition ok_page :: "nat option \<Rightarrow> entry list \<Rightarrow> entry collection option response" where
  "ok_page t es = \<lparr>status = 200, statusText = ''OK'', text_body = [],
                    json = Inr (Some \<lparr>total_items = t, items = Some es\<rparr>)\<rparr>"

definition not_found :: "entry collection option response" where
  "not_found = \<lparr>status = 404, statusText = ''Not Found'', text_body = [],
                 json = Inl (JsError ''SyntaxError'' ''Unexpected end of JSON input'')\<rparr>"

text \<open>An entry that is not archived, with the key \<^verbatim>\<open>__proto__\<close> and a value.\<close>

definition proto_entry :: entry where
  "proto_entry =
     \<lparr>sys = Some \<lparr>sys_id = ''entry1000'', version = Some 1, archivedVersion = None\<rparr>,
      entry_fields = Some [(''key'', Localized [(''en-US'', ''__proto__'')]),
                           (''value'', Localized [(''en-US'', ''value1000'')])]\<rparr>"

text \<open>
  A server with 1500 entries, none archived, with 1500 different keys: \<^verbatim>\<open>key0\<close> to \<^verbatim>\<open>key999\<close>
  on the first page, \<^verbatim>\<open>__proto__\<close> and \<^verbatim>\<open>key1001\<close> to \<^verbatim>\<open>key1499\<close> on the page at skip 1000.
\<close>

definition paged_server :: "entry collection option fetcher" where
  "paged_server req =
     (if url req = first_url validConfig then Inr (ok_page (Some 1500) (numbered_entries 0 1000))
      else if url req = page_url validConfig 1
      then Inr (ok_page (Some 1500) (proto_entry # numbered_entries 1001 1500))
      else Inr not_found)"

text \<open>
  The server of the unit test: 1500 entries \<^verbatim>\<open>key0\<close> to \<^verbatim>\<open>key1499\<close>, 1000 on the first page and
  500 at skip 1000.
\<close>

definition numbered_server :: "entry collection option fetcher" where
  "numbered_server req =
     (if url req = first_url validConfig then Inr (ok_page (Some 1500) (numbered_entries 0 1000))
      else if url req = page_url validConfig 1
      then Inr (ok_page (Some 1500) (numbered_entries 1000 1500))
      else Inr not_found)"

definition request_timeout :: thrown where
  "request_timeout = JsError ''Error'' ''Request timeout - please check your network connection''"

text \<open>
  A server with 2500 entries \<^verbatim>\<open>key0\<close> to \<^verbatim>\<open>key2499\<close> that serves the first page and the page at
  skip 1000; every other request times out.
\<close>

definition flaky_server :: "entry collection option fetcher" where
  "flaky_server req =
     (if url req = first_url validConfig then Inr (ok_page (Some 2500) (numbered_entries 0 1000))
      else if url req = page_url validConfig 1
      then Inr (ok_page (Some 2500) (numbered_entries 1000 2000))
      else Inl request_timeout)"

text \<open>
  A server that declares 1500 entries on a first page with one entry and answers every later
  request with status 200 and the body \<^verbatim>\<open>null\<close>.
\<close>

definition null_page :: "entry collection option response" where
  "null_page = \<lparr>status = 200, statusText = ''OK'', text_body = ''null'', json = Inr None\<rparr>"

definition null_body_server :: "entry collection option fetcher" where
  "null_body_server req =
     (if url req = first_url validConfig then Inr (ok_page (Some 1500) [numbered_entry 0])
      else Inr null_page)"

text \<open>The page of the unit test "should skip archived entries".\<close>

definition active_entry :: entry where
  "active_entry =
     \<lparr>sys = Some \<lparr>sys_id = ''entry1'', version = None, archivedVersion = None\<rparr>,
      entry_fields = Some [(''key'', Localized [(''en-US'', ''active'')]),
                           (''value'', Localized [(''en-US'', ''Active Entry'')])]\<rparr>"

definition archived_entry :: entry where
  "archived_entry =
     \<lparr>sys = Some \<lparr>sys_id = ''entry2'', version = None, archivedVersion = Some 1\<rparr>,
      entry_fields = Some [(''key'', Localized [(''en-US'', ''archived'')]),
                           (''value'', Localized [(''en-US'', ''Archived Entry'')])]\<rparr>"

text \<open>A server whose only page holds these two entries and the one with the key \<^verbatim>\<open>__proto__\<close>.\<close>

definition proto_server :: "entry collection option fetcher" where
  "proto_server req = Inr (ok_page (Some 3) [active_entry, archived_entry, proto_entry])"

text \<open>A server that answers every request with the given status.\<close>

definition status_server :: "nat \<Rightarrow> string \<Rightarrow> 'a fetcher" where
  "status_server st txt req =
     Inr \<lparr>status = st, statusText = txt, text_body = [],
          json = Inl (JsError ''SyntaxError'' ''Unexpected end of JSON input'')\<rparr>"

text \<open>A transport that answers every request with the same response.\<close>

definition answering :: "'a response \<Rightarrow> 'a fetcher" where
  "answering r req = Inr r"
section \<open>Properties of node.service.ts\<close>

subsection \<open>The state of the loop\<close>

lemma translate_node_state:
  assumes "translate_node l tm n st = (n', st')"
  shows "count st' = count st + (if node_succeeds l tm n then 1 else 0)"
    and "errors st' = errors st @ (case node_error l tm n of None \<Rightarrow> [] | Some e \<Rightarrow> [e])"
    and "skipped st' = skipped st @ (if locked n then [locked_reason n] else [])"
  using assms
  by (auto simp: translate_node_def node_succeeds_def node_error_def locked_reason_def
           split: if_splits option.splits prod.splits)

lemma translate_loop_state:
  "translate_loop l tm sel ns st = (ns', st') \<Longrightarrow>
     count st' = count st + length (filter (node_succeeds l tm) (filter sel ns)) \<and>
     errors st' = errors st @ List.map_filter (node_error l tm) (filter sel ns) \<and>
     skipped st' = skipped st @ map locked_reason (filter locked (filter sel ns))"
proof (induction ns arbitrary: st ns' st')
  case Nil
  then show ?case by simp
next
  case (Cons n ns)
  show ?case
  proof (cases "sel n")
    case True
    obtain n1 st1 where s1: "translate_node l tm n st = (n1, st1)"
      by (cases "translate_node l tm n st")
    obtain r2 st2 where s2: "translate_loop l tm sel ns st1 = (r2, st2)"
      by (cases "translate_loop l tm sel ns st1")
    from Cons.prems True s1 s2 have "st' = st2" by simp
    with Cons.IH[OF s2] translate_node_state[OF s1] True show ?thesis
      by (simp split: option.splits)
  next
    case False
    obtain r2 st2 where s2: "translate_loop l tm sel ns st = (r2, st2)"
      by (cases "translate_loop l tm sel ns st")
    from Cons.prems False s2 have "st' = st2" by simp
    with Cons.IH[OF s2] False show ?thesis by simp
  qed
qed

lemma RegExp_jams: "RegExp_fragment ''^jams_'' = Inr (starts_with ''jams_'')"
  by (simp add: RegExp_fragment_def word_char_def)

subsection \<open>applyTranslations: when it throws and what it throws\<close>

text \<open>
  Claim C4. When the pattern compiles and at least one text node matches it,
  \<open>applyTranslations\<close> rejects exactly when no matched node was updated. The success count is
  the number of matched nodes that are unlocked, have a non-empty translation, miss no font
  and whose fonts all load. When it is zero the error carries the first recorded font error
  if there is one, else the first locked-skip reason, else the generic message; when it is
  not zero the count is returned and neither errors nor skips surface.
\<close>

theorem applyTranslations_throws_iff_zero_success:
  assumes "RegExp pat = Inr test"
    and "filter (\<lambda>n. ntype n = TEXT \<and> test (name n)) nodes \<noteq> []"
  shows "fst (applyTranslations RegExp loadFontAsync translations pat (Some nodes)) =
           (let textNodes = filter (\<lambda>n. ntype n = TEXT \<and> test (name n)) nodes;
                tm = translationMap translations;
                successCount = length (filter (node_succeeds loadFontAsync tm) textNodes)
            in if successCount = 0
               then Inl (JsError ''Error''
                      (zero_success_message
                         (List.map_filter (node_error loadFontAsync tm) textNodes)
                         (map locked_reason (filter locked textNodes))))
               else Inr successCount)"
proof -
  let ?sel = "\<lambda>n. ntype n = TEXT \<and> test (name n)"
  let ?tm = "translationMap translations"
  obtain ns' st where L: "translate_loop loadFontAsync ?tm ?sel nodes init_state = (ns', st)"
    by (cases "translate_loop loadFontAsync ?tm ?sel nodes init_state")
  from translate_loop_state[OF L]
  have st: "count st = length (filter (node_succeeds loadFontAsync ?tm) (filter ?sel nodes))"
       "errors st = List.map_filter (node_error loadFontAsync ?tm) (filter ?sel nodes)"
       "skipped st = map locked_reason (filter locked (filter ?sel nodes))"
    by (simp_all add: init_state_def)
  have "fst (applyTranslations RegExp loadFontAsync translations pat (Some nodes)) = apply_outcome st"
    using assms L by (simp add: applyTranslations_def Let_def)
  then show ?thesis
    using st by (simp add: apply_outcome_def zero_success_message_def Let_def)
qed

theorem applyTranslations_throws_iff_zero_success_witness:
  "RegExp_fragment ''^jams_'' = Inr (starts_with ''jams_'') \<and>
   filter (\<lambda>n. ntype n = TEXT \<and> starts_with ''jams_'' (name n)) [jams_hello, jams_world] \<noteq> [] \<and>
   fst (applyTranslations RegExp_fragment always_loads hello_translation ''^jams_''
          (Some [jams_hello, jams_world])) = Inr 1"
  using applyTranslations_throws_iff_zero_success
          [of RegExp_fragment "''^jams_''" "starts_with ''jams_''" "[jams_hello, jams_world]"
              always_loads hello_translation]
  by (simp add: RegExp_jams jams_hello_def jams_world_def createMockTextNode_def
        hello_translation_def translationMap_def node_succeeds_def load_node_fonts_def
        always_loads_def Let_def)

subsection \<open>Locked nodes\<close>

lemma locks_respected_refl: "locks_respected ns ns"
  by (simp add: locks_respected_def list_all2_refl)

lemma locks_respected_trans:
  "locks_respected a b \<Longrightarrow> locks_respected b c \<Longrightarrow> locks_respected a c"
  unfolding locks_respected_def
  by (auto simp: list_all2_conv_all_nth)

lemma translate_node_lock:
  "translate_node l tm n st = (n', st') \<Longrightarrow> locked n' = locked n \<and> (locked n \<longrightarrow> n' = n)"
  by (auto simp: translate_node_def split: if_splits option.splits prod.splits)

lemma translate_loop_locks:
  "translate_loop l tm sel ns st = (ns', st') \<Longrightarrow> locks_respected ns ns'"
proof (induction ns arbitrary: st ns' st')
  case Nil
  then show ?case by (simp add: locks_respected_def)
next
  case (Cons n ns)
  obtain n1 st1 where s1: "translate_node l tm n st = (n1, st1)"
    by (cases "translate_node l tm n st")
  obtain r2 st2 where s2: "translate_loop l tm sel ns (if sel n then st1 else st) = (r2, st2)"
    by (cases "translate_loop l tm sel ns (if sel n then st1 else st)")
  from Cons.prems s1 s2 have ns': "ns' = (if sel n then n1 else n) # r2"
    by (simp split: if_splits)
  from Cons.IH[OF s2] translate_node_lock[OF s1] ns' show ?case
    by (simp add: locks_respected_def)
qed

text \<open>The two write paths that check the lock leave every locked node as it was.\<close>

lemma applyTranslations_keeps_locked:
  assumes "applyTranslations RegExp l ts pat (Some nodes) = (r, Some nodes', evs)"
  shows "locks_respected nodes nodes'"
  using assms translate_loop_locks
  by (auto simp: applyTranslations_def Let_def locks_respected_refl
           split: sum.splits if_splits prod.splits)

lemma set_characters_locks:
  "find (\<lambda>n. nid n = i) ns = Some node \<Longrightarrow> \<not> locked node \<Longrightarrow>
     locks_respected ns (set_characters i s ns)"
proof (induction ns)
  case Nil
  then show ?case by simp
next
  case (Cons n ns)
  then show ?case
    using locks_respected_refl[of ns]
    by (auto simp: locks_respected_def split: if_splits)
qed

lemma apply_mapping_locks:
  "locks_respected (rec_nodes st) (rec_nodes (apply_mapping l rf m st))"
  by (auto simp: apply_mapping_def getNodeByIdAsync_def Let_def locks_respected_refl
        set_characters_locks split: option.splits js_value.splits prod.splits)

lemma applyRecordToNodes_keeps_locked:
  "locks_respected nodes (rec_nodes (applyRecordToNodes l ms rf nodes))"
proof -
  have "locks_respected nodes (rec_nodes (foldl (\<lambda>st m. apply_mapping l rf m st) st0 ms))"
    if "locks_respected nodes (rec_nodes st0)" for st0
    using that
  proof (induction ms arbitrary: st0)
    case Nil
    then show ?case by simp
  next
    case (Cons m ms)
    have "locks_respected nodes (rec_nodes (apply_mapping l rf m st0))"
      using Cons.prems apply_mapping_locks locks_respected_trans by blast
    from Cons.IH[OF this] show ?case by simp
  qed
  then show ?thesis
    by (simp add: applyRecordToNodes_def locks_respected_refl)
qed

text \<open>
  Claim C1. Locked nodes are read-only in every write path. \<open>applyTranslations\<close> and
  \<open>applyRecordToNodes\<close> test \<^verbatim>\<open>node.locked\<close> and pass the node over (the two lemmas above), but
  \<open>updateMultipleNodes\<close> has no such test: called on the id of a locked text node whose font
  loads, it overwrites \<open>characters\<close>, counts the node as a success and records no error.
\<close>

theorem updateMultipleNodes_overwrites_locked_node:
  "locked locked_title \<and> characters locked_title = ''Old Title'' \<and>
   upd_success (fst (updateMultipleNodes always_loads [''node1''] ''New Text'' [locked_title])) \<and>
   upd_count (fst (updateMultipleNodes always_loads [''node1''] ''New Text'' [locked_title])) = 1 \<and>
   upd_errors_field (fst (updateMultipleNodes always_loads [''node1''] ''New Text'' [locked_title])) = None \<and>
   map characters (fst (snd (updateMultipleNodes always_loads [''node1''] ''New Text'' [locked_title])))
     = [''New Text''] \<and>
   map locked (fst (snd (updateMultipleNodes always_loads [''node1''] ''New Text'' [locked_title])))
     = [True] \<and>
   snd (snd (updateMultipleNodes always_loads [''node1''] ''New Text'' [locked_title]))
     = [LoadFont arial_regular, SetCharacters ''node1'' ''New Text'']"
  by (simp add: updateMultipleNodes_def update_node_def getNodeByIdAsync_def locked_title_def
        createMockTextNode_def load_node_fonts_def always_loads_def Let_def)

subsection \<open>A malformed pattern\<close>

lemma RegExp_invalid:
  "RegExp_fragment ''[invalid'' = Inl (JsError ''SyntaxError'' ''Invalid regular expression: /[invalid/'')"
  by (simp add: RegExp_fragment_def word_char_def)

text \<open>
  Claim C3, as stated: for a malformed pattern both matcher operations return an empty result
  with a distinct invalid-pattern signal and never throw. At the pattern \<^verbatim>\<open>[invalid\<close> of the
  unit tests \<open>getTranslatableNodes\<close> throws the constructor's error, and the 0 that
  \<open>getTranslatableNodeCount\<close> returns is the 0 it returns for the valid pattern \<^verbatim>\<open>other\<close>
  that matches no node.
\<close>

theorem malformed_pattern_signal_counterexample:
  "getTranslatableNodes RegExp_fragment (Some [jams_hello]) ''[invalid''
     = Inl (JsError ''SyntaxError'' ''Invalid regular expression: /[invalid/'') \<and>
   getTranslatableNodeCount RegExp_fragment (Some [jams_hello]) ''[invalid'' = 0 \<and>
   getTranslatableNodeCount RegExp_fragment (Some [jams_hello]) ''other'' = 0 \<and>
   RegExp_fragment ''other'' = Inr (contains ''other'')"
  by (simp add: RegExp_fragment_def word_char_def getTranslatableNodes_def getTranslatableNodeCount_def
        jams_hello_def createMockTextNode_def)

text \<open>
  Claim C3, amended. For every pattern that the constructor rejects,
  \<open>getTranslatableNodeCount\<close> returns 0 without throwing, which is also what it returns on a
  page with no node whatever the pattern, so the result carries no invalid-pattern signal;
  \<open>getTranslatableNodes\<close> does not catch the error, which reaches its caller.
\<close>

theorem malformed_pattern_count_zero_nodes_throw:
  assumes "RegExp pat = Inl err"
  shows "getTranslatableNodeCount RegExp currentPage pat = 0 \<and>
         getTranslatableNodeCount RegExp currentPage pat = getTranslatableNodeCount RegExp (Some []) pat' \<and>
         getTranslatableNodes RegExp currentPage pat = Inl err"
  using assms
  by (simp add: getTranslatableNodeCount_def getTranslatableNodes_def split: option.splits sum.splits)

theorem malformed_pattern_count_zero_nodes_throw_witness:
  "RegExp_fragment ''[invalid'' = Inl (JsError ''SyntaxError'' ''Invalid regular expression: /[invalid/'') \<and>
   getTranslatableNodeCount RegExp_fragment (Some [jams_hello, jams_world]) ''[invalid'' = 0 \<and>
   getTranslatableNodeCount RegExp_fragment (Some []) ''^jams_'' = 0 \<and>
   getTranslatableNodes RegExp_fragment (Some [jams_hello, jams_world]) ''[invalid''
     = Inl (JsError ''SyntaxError'' ''Invalid regular expression: /[invalid/'')"
  using malformed_pattern_count_zero_nodes_throw
          [of RegExp_fragment "''[invalid''"
              "JsError ''SyntaxError'' ''Invalid regular expression: /[invalid/''"
              "Some [jams_hello, jams_world]" "''^jams_''"]
        RegExp_invalid
  by simp

subsection \<open>Mixed fonts\<close>

lemma load_range_fonts_closed:
  "load_range_fonts l node is u = (r, evs, u') \<Longrightarrow>
     (case find (\<lambda>f. l f \<noteq> None) (map (getRangeFontName node) is) of
        None \<Rightarrow> r = None \<and> evs = map LoadFont (map (getRangeFontName node) is)
      | Some bad \<Rightarrow> r = l bad \<and>
          evs = map LoadFont (takeWhile (\<lambda>f. l f = None) (map (getRangeFontName node) is) @ [bad]))"
proof (induction "is" arbitrary: u r evs u')
  case Nil
  then show ?case by simp
next
  case (Cons i rest)
  show ?case
  proof (cases "l (getRangeFontName node i)")
    case None
    obtain r2 evs2 u2 where rec:
      "load_range_fonts l node rest (insert (family (getRangeFontName node i) @ '':'' @ style (getRangeFontName node i)) u) = (r2, evs2, u2)"
      by (metis prod_cases3)
    from Cons.prems None rec have "r = r2" "evs = LoadFont (getRangeFontName node i) # evs2"
      by (simp_all add: Let_def)
    with Cons.IH[OF rec] None show ?thesis
      by (simp split: option.splits)
  next
    case (Some e)
    with Cons.prems have "r = Some e" "evs = [LoadFont (getRangeFontName node i)]"
      by (simp_all add: Let_def)
    with Some show ?thesis by simp
  qed
qed

text \<open>
  The loop body on an unlocked node with mixed fonts, no missing font and a non-empty
  translation: it visits the character positions in order and loads the font of each
  position, one load per position. If every load resolves, \<open>characters\<close> is overwritten after
  the last load, the count goes up by one and the write is the last event. If a load rejects,
  the walk stops there, the node is left as it was and the error is recorded. So no write
  precedes a load.
\<close>

lemma mixed_node_walk:
  assumes "fontName node = Mixed" and "\<not> locked node" and "\<not> hasMissingFont node"
    and "tm (name node) = Some t" and "t \<noteq> []"
  shows "translate_node loadFontAsync tm node st =
     (let fonts = map (getRangeFontName node) [0..<length (characters node)]
      in case find (\<lambda>f. loadFontAsync f \<noteq> None) fonts of
           None \<Rightarrow>
             (node\<lparr>characters := t\<rparr>,
              st\<lparr>count := count st + 1,
                 trace := trace st @ map LoadFont fonts @ [SetCharacters (nid node) t]\<rparr>)
         | Some bad \<Rightarrow>
             (node,
              st\<lparr>errors := errors st @ [name node @ '': '' @ message_or ''Font error'' (the (loadFontAsync bad))],
                 trace := trace st @ map LoadFont (takeWhile (\<lambda>f. loadFontAsync f = None) fonts @ [bad])\<rparr>))"
proof -
  obtain r evs u where L:
    "load_range_fonts loadFontAsync node [0..<length (characters node)] {} = (r, evs, u)"
    by (metis prod_cases3)
  have lnf: "load_node_fonts loadFontAsync node = (r, evs)"
    using assms(1) L by (simp add: load_node_fonts_def)
  let ?fonts = "map (getRangeFontName node) [0..<length (characters node)]"
  show ?thesis
  proof (cases "find (\<lambda>f. loadFontAsync f \<noteq> None) ?fonts")
    case None
    with load_range_fonts_closed[OF L] have "r = None" "evs = map LoadFont ?fonts" by simp_all
    with assms lnf None show ?thesis
      by (simp add: translate_node_def Let_def)
  next
    case (Some bad)
    with load_range_fonts_closed[OF L]
    have r: "r = loadFontAsync bad"
      and evs: "evs = map LoadFont (takeWhile (\<lambda>f. loadFontAsync f = None) ?fonts @ [bad])"
      by simp_all
    from Some have "loadFontAsync bad \<noteq> None" by (auto simp: find_Some_iff)
    then obtain e where e: "loadFontAsync bad = Some e" by auto
    with assms lnf Some r evs show ?thesis
      by (simp add: translate_node_def Let_def)
  qed
qed

text \<open>
  Claim C8: the fonts of a node with mixed fonts are loaded deduplicated by (family, style),
  so that no font is loaded more than once, and the write comes after the loads. On the node
  of the unit test "should handle mixed fonts" (the two characters of \<^verbatim>\<open>AB\<close>, both in Arial
  Bold) the loop fills the set \<open>uniqueFonts\<close> with the one identity \<^verbatim>\<open>Arial:Bold\<close> and loads
  Arial Bold twice, once per position; the write follows the two loads.
\<close>

theorem mixed_node_same_font_loaded_twice:
  "load_range_fonts always_loads mixed_AB [0..<length (characters mixed_AB)] {}
     = (None, [LoadFont arial_bold, LoadFont arial_bold], {''Arial:Bold''}) \<and>
   applyTranslations RegExp_fragment always_loads hello_translation ''^jams_'' (Some [mixed_AB])
     = (Inr 1, Some [mixed_AB\<lparr>characters := ''New Hello''\<rparr>],
        [LoadFont arial_bold, LoadFont arial_bold, SetCharacters ''1'' ''New Hello''])"
  by (simp add: applyTranslations_def RegExp_jams mixed_AB_def createMockTextNode_def
        hello_translation_def translationMap_def translate_node_def load_node_fonts_def
        always_loads_def init_state_def apply_outcome_def arial_bold_def Let_def upt_rec)

subsection \<open>Running applyTranslations twice\<close>















section \<open>Properties of contentful.service.ts\<close>

subsection \<open>Saving an existing entry\<close>

text \<open>
  Claim C2. For a save with \<open>isUpdate\<close> and a non-empty entry id \<open>i\<close>, with the three requests
  written out (\<open>getReq\<close> the GET of \<^verbatim>\<open>.../entries/i\<close>, \<open>putReq v\<close> the PUT of the two fields to
  the same address with the header \<^verbatim>\<open>X-Contentful-Version: v\<close>, \<open>pubReq w\<close> the PUT to
  \<^verbatim>\<open>.../entries/i/published\<close> with the header \<^verbatim>\<open>X-Contentful-Version: w\<close>):

  \<^item> the first request is \<open>getReq\<close>; when it is not answered with an ok status nothing else is
    sent and the save fails;
  \<^item> when it is answered with the entry at version \<open>v\<close>, the second request is \<open>putReq v\<close>;
  \<^item> when the update is answered with a status that is not ok (409, say), the result is
    \<open>success = False\<close> with the error \<^verbatim>\<open>Update failed (status)\<close> and the operation \<^verbatim>\<open>update\<close>,
    and the update is the last request; when the update request rejects, it is the last
    request too, and the save fails;
  \<^item> when the update is answered with an ok status and the entry at version \<open>w\<close>, the third and
    last request is \<open>pubReq w\<close>, and the save succeeds exactly when the publish is answered
    with an ok status;
  \<^item> a request to the \<^verbatim>\<open>/published\<close> address is in the log only after an update answered
    with an ok status.
\<close>

theorem save_update_protocol:
  assumes "isUpdate item" and "entryId item = Some i" and "i \<noteq> []"
  shows
   "(let R = saveItemToContentful config fetchWithTimeout item;
         entryUrl = environment_url config @ ''/entries/'' @ i;
         auth = (''Authorization'', ''Bearer '' @ CMA_TOKEN config);
         getReq = \<lparr>url = entryUrl, http_method = GET, headers = [auth], body = None\<rparr>;
         putReq = (\<lambda>v. \<lparr>url = entryUrl, http_method = PUT,
                     headers = [auth,
                                (''Content-Type'', ''application/vnd.contentful.management.v1+json''),
                                (''X-Contentful-Version'', show_nat v)],
                     body = Some [(KEY_FIELD config, [(''en-US'', save_key item)]),
                                  (VALUE_FIELD config, [(''en-US'', save_value item)])]\<rparr>);
         pubReq = (\<lambda>w. \<lparr>url = entryUrl @ ''/published'', http_method = PUT,
                     headers = [auth, (''X-Contentful-Version'', show_nat w)], body = None\<rparr>);
         current = (\<lambda>v. \<exists>g cur s. fetchWithTimeout getReq = Inr g \<and> ok g \<and> json g = Inr (Some cur) \<and>
                          sys cur = Some s \<and> version s = Some v)
     in snd R \<noteq> [] \<and> hd (snd R) = getReq \<and>
        ((\<forall>g. fetchWithTimeout getReq = Inr g \<longrightarrow> \<not> ok g) \<longrightarrow>
           snd R = [getReq] \<and> \<not> success (fst R)) \<and>
        (\<forall>v. current v \<longrightarrow> take 2 (snd R) = [getReq, putReq v]) \<and>
        (\<forall>v r. current v \<and> fetchWithTimeout (putReq v) = Inr r \<and> \<not> ok r \<longrightarrow>
           snd R = [getReq, putReq v] \<and>
           fst R = \<lparr>success = False,
                    error = Some (''Update failed ('' @ show_nat (status r) @ '')''),
                    details = Some (no_details\<lparr>details_status := Some (status r),
                                       details_response := Some (text_body r),
                                       operation := Some ''update'',
                                       details_entryId := Some i,
                                       details_version := Some v\<rparr>)\<rparr>) \<and>
        (\<forall>v err. current v \<and> fetchWithTimeout (putReq v) = Inl err \<longrightarrow>
           snd R = [getReq, putReq v] \<and> \<not> success (fst R)) \<and>
        (\<forall>v r upd s w. current v \<and> fetchWithTimeout (putReq v) = Inr r \<and> ok r \<and>
                        json r = Inr (Some upd) \<and> sys upd = Some s \<and> version s = Some w \<longrightarrow>
           snd R = [getReq, putReq v, pubReq w] \<and>
           (success (fst R) \<longleftrightarrow> (\<exists>p. fetchWithTimeout (pubReq w) = Inr p \<and> ok p))) \<and>
        ((\<exists>q \<in> set (snd R). url q = entryUrl @ ''/published'') \<longrightarrow>
           (\<exists>v r. current v \<and> fetchWithTimeout (putReq v) = Inr r \<and> ok r)))"
proof -
  let ?entryUrl = "environment_url config @ ''/entries/'' @ i"
  let ?auth = "(''Authorization'', ''Bearer '' @ CMA_TOKEN config)"
  let ?get = "\<lparr>url = ?entryUrl, http_method = GET, headers = [?auth], body = None\<rparr>"
  let ?put = "\<lambda>v. \<lparr>url = ?entryUrl, http_method = PUT,
                     headers = [?auth,
                                (''Content-Type'', ''application/vnd.contentful.management.v1+json''),
                                (''X-Contentful-Version'', show_nat v)],
                     body = Some [(KEY_FIELD config, [(''en-US'', save_key item)]),
                                  (VALUE_FIELD config, [(''en-US'', save_value item)])]\<rparr>"
  let ?pub = "\<lambda>w. \<lparr>url = ?entryUrl @ ''/published'', http_method = PUT,
                     headers = [?auth, (''X-Contentful-Version'', show_nat w)], body = None\<rparr>"
  let ?current = "\<lambda>v. \<exists>g cur s. fetchWithTimeout ?get = Inr g \<and> ok g \<and> json g = Inr (Some cur) \<and>
                          sys cur = Some s \<and> version s = Some v"
  let ?R = "saveItemToContentful config fetchWithTimeout item"
  have R: "?R = save_update config fetchWithTimeout item i"
    using assms by (simp add: saveItemToContentful_def)
  have get: "get_request config (entry_url config i) = ?get"
    by (simp add: get_request_def entry_url_def bearer_def)
  have put: "update_request config item i v = ?put v" for v
    by (simp add: update_request_def entry_url_def bearer_def content_type_json_def field_body_def)
  have pub: "publish_request config i w = ?pub w" for w
    by (simp add: publish_request_def entry_url_def bearer_def)
  have failed: "\<not> success (exception_result item e)" for e
    by (cases e) simp_all
  have pub_stage: "snd (publish_stage config fetchWithTimeout item i w sent) = sent @ [?pub w]"
    "success (fst (publish_stage config fetchWithTimeout item i w sent))
       \<longleftrightarrow> (\<exists>p. fetchWithTimeout (?pub w) = Inr p \<and> ok p)" for w sent
    by (simp_all add: publish_stage_def pub Let_def failed stage_failure_def split: sum.splits)
  have upd_first: "take (Suc (length sent)) (snd (update_stage config fetchWithTimeout item i v sent))
                     = sent @ [?put v]" for v sent
    by (simp add: update_stage_def put Let_def pub_stage(1) split: sum.splits option.splits prod.splits)
  have upd_bad: "update_stage config fetchWithTimeout item i v sent =
        (\<lparr>success = False, error = Some (''Update failed ('' @ show_nat (status r) @ '')''),
          details = Some (no_details\<lparr>details_status := Some (status r),
                             details_response := Some (text_body r),
                             operation := Some ''update'', details_entryId := Some i,
                             details_version := Some v\<rparr>)\<rparr>, sent @ [?put v])"
    if "fetchWithTimeout (?put v) = Inr r" "\<not> ok r" for v r sent
    using that by (simp add: update_stage_def put Let_def stage_failure_def no_details_def)
  have upd_rejected: "update_stage config fetchWithTimeout item i v sent
        = (exception_result item err, sent @ [?put v])"
    if "fetchWithTimeout (?put v) = Inl err" for v err sent
    using that by (simp add: update_stage_def put Let_def)
  have upd_ok: "update_stage config fetchWithTimeout item i v sent
        = publish_stage config fetchWithTimeout item i w (sent @ [?put v])"
    if "fetchWithTimeout (?put v) = Inr r" "ok r" "json r = Inr (Some upd)" "sys upd = Some s"
       "version s = Some w" for v r upd s w sent
    using that by (simp add: update_stage_def put Let_def entry_version_def entry_sys_def)
  have upd_no_publish: "snd (update_stage config fetchWithTimeout item i v sent) = sent @ [?put v]"
    if "\<not> (\<exists>r. fetchWithTimeout (?put v) = Inr r \<and> ok r)" for v sent
    using that by (auto simp: update_stage_def put Let_def split: sum.splits)
  have cur: "?R = update_stage config fetchWithTimeout item i v [?get]" if "?current v" for v
    using that unfolding R
    by (auto simp: save_update_def get Let_def entry_version_def entry_sys_def)
  have no_cur: "snd ?R = [?get] \<and> \<not> success (fst ?R)" if "\<not> (\<exists>v. ?current v)"
    using that unfolding R
    by (auto simp: save_update_def get Let_def entry_version_def entry_sys_def failed
          stage_failure_def split: sum.splits option.splits)
  have c1: "snd ?R \<noteq> [] \<and> hd (snd ?R) = ?get"
  proof (cases "\<exists>v. ?current v")
    case True
    then obtain v where v: "?current v" ..
    from upd_first[of "[?get]" v] show ?thesis
      unfolding cur[OF v] by (cases "snd (update_stage config fetchWithTimeout item i v [?get])") auto
  next
    case False
    from no_cur[OF False] show ?thesis by simp
  qed
  have c2: "(\<forall>g. fetchWithTimeout ?get = Inr g \<longrightarrow> \<not> ok g) \<longrightarrow> snd ?R = [?get] \<and> \<not> success (fst ?R)"
  proof
    assume "\<forall>g. fetchWithTimeout ?get = Inr g \<longrightarrow> \<not> ok g"
    then have "\<not> (\<exists>v. ?current v)" by blast
    from no_cur[OF this] show "snd ?R = [?get] \<and> \<not> success (fst ?R)" .
  qed
  have c3: "\<forall>v. ?current v \<longrightarrow> take 2 (snd ?R) = [?get, ?put v]"
  proof (intro allI impI)
    fix v assume v: "?current v"
    from upd_first[of "[?get]" v] show "take 2 (snd ?R) = [?get, ?put v]"
      unfolding cur[OF v] by (simp add: numeral_2_eq_2)
  qed
  have c4: "\<forall>v r. ?current v \<and> fetchWithTimeout (?put v) = Inr r \<and> \<not> ok r \<longrightarrow>
           snd ?R = [?get, ?put v] \<and>
           fst ?R = \<lparr>success = False,
                    error = Some (''Update failed ('' @ show_nat (status r) @ '')''),
                    details = Some (no_details\<lparr>details_status := Some (status r),
                                       details_response := Some (text_body r),
                                       operation := Some ''update'',
                                       details_entryId := Some i,
                                       details_version := Some v\<rparr>)\<rparr>"
  proof (intro allI impI)
    fix v r assume a: "?current v \<and> fetchWithTimeout (?put v) = Inr r \<and> \<not> ok r"
    then have v: "?current v" and r: "fetchWithTimeout (?put v) = Inr r" "\<not> ok r" by blast+
    show "snd ?R = [?get, ?put v] \<and>
           fst ?R = \<lparr>success = False,
                    error = Some (''Update failed ('' @ show_nat (status r) @ '')''),
                    details = Some (no_details\<lparr>details_status := Some (status r),
                                       details_response := Some (text_body r),
                                       operation := Some ''update'',
                                       details_entryId := Some i,
                                       details_version := Some v\<rparr>)\<rparr>"
      unfolding cur[OF v] upd_bad[OF r] by simp
  qed
  have c5: "\<forall>v err. ?current v \<and> fetchWithTimeout (?put v) = Inl err \<longrightarrow>
           snd ?R = [?get, ?put v] \<and> \<not> success (fst ?R)"
  proof (intro allI impI)
    fix v err assume a: "?current v \<and> fetchWithTimeout (?put v) = Inl err"
    then have v: "?current v" and r: "fetchWithTimeout (?put v) = Inl err" by blast+
    show "snd ?R = [?get, ?put v] \<and> \<not> success (fst ?R)"
      unfolding cur[OF v] upd_rejected[OF r] by (simp add: failed)
  qed
  have c6: "\<forall>v r upd s w. ?current v \<and> fetchWithTimeout (?put v) = Inr r \<and> ok r \<and>
                        json r = Inr (Some upd) \<and> sys upd = Some s \<and> version s = Some w \<longrightarrow>
           snd ?R = [?get, ?put v, ?pub w] \<and>
           (success (fst ?R) \<longleftrightarrow> (\<exists>p. fetchWithTimeout (?pub w) = Inr p \<and> ok p))"
  proof (intro allI impI)
    fix v r upd s w
    assume a: "?current v \<and> fetchWithTimeout (?put v) = Inr r \<and> ok r \<and>
                        json r = Inr (Some upd) \<and> sys upd = Some s \<and> version s = Some w"
    then have v: "?current v" and r: "fetchWithTimeout (?put v) = Inr r" "ok r"
      "json r = Inr (Some upd)" "sys upd = Some s" "version s = Some w" by blast+
    show "snd ?R = [?get, ?put v, ?pub w] \<and>
           (success (fst ?R) \<longleftrightarrow> (\<exists>p. fetchWithTimeout (?pub w) = Inr p \<and> ok p))"
      unfolding cur[OF v] upd_ok[OF r] pub_stage by simp
  qed
  have c7: "(\<exists>q \<in> set (snd ?R). url q = ?entryUrl @ ''/published'') \<longrightarrow>
           (\<exists>v r. ?current v \<and> fetchWithTimeout (?put v) = Inr r \<and> ok r)"
  proof (rule impI, rule ccontr)
    assume q: "\<exists>q \<in> set (snd ?R). url q = ?entryUrl @ ''/published''"
    assume n: "\<not> (\<exists>v r. ?current v \<and> fetchWithTimeout (?put v) = Inr r \<and> ok r)"
    show False
    proof (cases "\<exists>v. ?current v")
      case True
      then obtain v where v: "?current v" ..
      with n have "\<not> (\<exists>r. fetchWithTimeout (?put v) = Inr r \<and> ok r)" by blast
      from upd_no_publish[OF this, of "[?get]"] q show False
        unfolding cur[OF v] by simp
    next
      case False
      from no_cur[OF False] q show False by simp
    qed
  qed
  from c1 c2 c3 c4 c5 c6 c7 show ?thesis
    unfolding Let_def by (intro conjI) blast+
qed

lemma validConfig_url:
  "environment_url validConfig = ''https://api.contentful.com/spaces/space123/environments/master''"
  by (simp add: environment_url_def validConfig_def encodeURIComponent_def unreserved_def)

lemma show_nat_digit: "n < 10 \<Longrightarrow> show_nat n = [digit_char n]"
  by (simp add: show_nat.simps)

theorem save_update_protocol_witness:
  "isUpdate update_E1 \<and> entryId update_E1 = Some ''E1'' \<and> ''E1'' \<noteq> [] \<and>
   saveItemToContentful validConfig conflict_server update_E1 =
     (\<lparr>success = False, error = Some ''Update failed (409)'',
       details = Some (no_details\<lparr>details_status := Some 409,
                          details_response := Some ''VersionMismatch'',
                          operation := Some ''update'', details_entryId := Some ''E1'',
                          details_version := Some 5\<rparr>)\<rparr>,
      [\<lparr>url = ''https://api.contentful.com/spaces/space123/environments/master/entries/E1'',
        http_method = GET, headers = [(''Authorization'', ''Bearer token123'')], body = None\<rparr>,
       \<lparr>url = ''https://api.contentful.com/spaces/space123/environments/master/entries/E1'',
        http_method = PUT,
        headers = [(''Authorization'', ''Bearer token123''),
                   (''Content-Type'', ''application/vnd.contentful.management.v1+json''),
                   (''X-Contentful-Version'', ''5'')],
        body = Some [(''key'', [(''en-US'', ''existing_key'')]),
                     (''value'', [(''en-US'', ''Updated Value'')])]\<rparr>]) \<and>
   success (fst (saveItemToContentful validConfig accepting_server update_E1)) \<and>
   snd (saveItemToContentful validConfig accepting_server update_E1) =
      [\<lparr>url = ''https://api.contentful.com/spaces/space123/environments/master/entries/E1'',
        http_method = GET, headers = [(''Authorization'', ''Bearer token123'')], body = None\<rparr>,
       \<lparr>url = ''https://api.contentful.com/spaces/space123/environments/master/entries/E1'',
        http_method = PUT,
        headers = [(''Authorization'', ''Bearer token123''),
                   (''Content-Type'', ''application/vnd.contentful.management.v1+json''),
                   (''X-Contentful-Version'', ''5'')],
        body = Some [(''key'', [(''en-US'', ''existing_key'')]),
                     (''value'', [(''en-US'', ''Updated Value'')])]\<rparr>,
       \<lparr>url = ''https://api.contentful.com/spaces/space123/environments/master/entries/E1/published'',
        http_method = PUT,
        headers = [(''Authorization'', ''Bearer token123''), (''X-Contentful-Version'', ''6'')],
        body = None\<rparr>]"
proof -
  have item: "isUpdate update_E1" "entryId update_E1 = Some ''E1''" "''E1'' \<noteq> []"
    by (simp_all add: update_E1_def)
  have cfg: "CMA_TOKEN validConfig = ''token123''" "KEY_FIELD validConfig = ''key''"
    "VALUE_FIELD validConfig = ''value''"
    by (simp_all add: validConfig_def)
  have itm: "save_key update_E1 = ''existing_key''" "save_value update_E1 = ''Updated Value''"
    by (simp_all add: update_E1_def)
  have nums: "show_nat 5 = ''5''" "show_nat 6 = ''6''" "show_nat 409 = ''409''"
    by (simp_all add: show_nat.simps digit_char_def)
  note C = save_update_protocol[OF item, of validConfig conflict_server,
             unfolded Let_def validConfig_url cfg itm]
  note C5 = C[THEN conjunct2, THEN conjunct2, THEN conjunct2, THEN conjunct2, THEN conjunct1,
              rule_format, of 5 "\<lparr>status = 409, statusText = ''Conflict'',
                text_body = ''VersionMismatch'', json = Inl (JsError ''SyntaxError'' ''Unexpected token'')\<rparr>"]
  have conflict:
    "snd (saveItemToContentful validConfig conflict_server update_E1) =
      [\<lparr>url = ''https://api.contentful.com/spaces/space123/environments/master/entries/E1'',
        http_method = GET, headers = [(''Authorization'', ''Bearer token123'')], body = None\<rparr>,
       \<lparr>url = ''https://api.contentful.com/spaces/space123/environments/master/entries/E1'',
        http_method = PUT,
        headers = [(''Authorization'', ''Bearer token123''),
                   (''Content-Type'', ''application/vnd.contentful.management.v1+json''),
                   (''X-Contentful-Version'', ''5'')],
        body = Some [(''key'', [(''en-US'', ''existing_key'')]),
                     (''value'', [(''en-US'', ''Updated Value'')])]\<rparr>] \<and>
     fst (saveItemToContentful validConfig conflict_server update_E1) =
       \<lparr>success = False, error = Some ''Update failed (409)'',
        details = Some (no_details\<lparr>details_status := Some 409,
                          details_response := Some ''VersionMismatch'',
                          operation := Some ''update'', details_entryId := Some ''E1'',
                          details_version := Some 5\<rparr>)\<rparr>"
    using C5 by (simp add: conflict_server_def ok_entry_def entry_E1_def ok_def nums)
  note A = save_update_protocol[OF item, of validConfig accepting_server,
             unfolded Let_def validConfig_url cfg itm]
  note A7 = A[THEN conjunct2, THEN conjunct2, THEN conjunct2, THEN conjunct2, THEN conjunct2,
              THEN conjunct2, THEN conjunct1,
              rule_format, of 5 "ok_entry (entry_E1 6)" "entry_E1 6"
                "\<lparr>sys_id = ''E1'', version = Some 6, archivedVersion = None\<rparr>" 6]
  have accept:
    "snd (saveItemToContentful validConfig accepting_server update_E1) =
      [\<lparr>url = ''https://api.contentful.com/spaces/space123/environments/master/entries/E1'',
        http_method = GET, headers = [(''Authorization'', ''Bearer token123'')], body = None\<rparr>,
       \<lparr>url = ''https://api.contentful.com/spaces/space123/environments/master/entries/E1'',
        http_method = PUT,
        headers = [(''Authorization'', ''Bearer token123''),
                   (''Content-Type'', ''application/vnd.contentful.management.v1+json''),
                   (''X-Contentful-Version'', ''5'')],
        body = Some [(''key'', [(''en-US'', ''existing_key'')]),
                     (''value'', [(''en-US'', ''Updated Value'')])]\<rparr>,
       \<lparr>url = ''https://api.contentful.com/spaces/space123/environments/master/entries/E1/published'',
        http_method = PUT,
        headers = [(''Authorization'', ''Bearer token123''), (''X-Contentful-Version'', ''6'')],
        body = None\<rparr>] \<and>
     success (fst (saveItemToContentful validConfig accepting_server update_E1))"
    using A7 by (simp add: accepting_server_def ok_entry_def entry_E1_def ok_def nums)
  from conflict accept item show ?thesis
    by (simp add: prod_eq_iff)
qed

subsection \<open>Decimal numerals\<close>

lemma digit_char_inj: "a < 10 \<Longrightarrow> b < 10 \<Longrightarrow> digit_char a = digit_char b \<Longrightarrow> a = b"
proof -
  assume a: "a < 10" and b: "b < 10" and eq: "digit_char a = digit_char b"
  have d: "distinct ''0123456789''" by simp
  from a b eq have "''0123456789'' ! a = ''0123456789'' ! b" by (simp add: digit_char_def)
  with d a b show "a = b" by (simp add: nth_eq_iff_index_eq)
qed

lemma show_nat_nonempty: "show_nat n \<noteq> []"
  by (subst show_nat.simps) simp

lemma show_nat_inj: "show_nat m = show_nat n \<Longrightarrow> m = n"
proof (induction m arbitrary: n rule: show_nat.induct)
  case (1 m)
  show ?case
  proof (cases "m < 10")
    case True
    then have m: "show_nat m = [digit_char m]" by (subst show_nat.simps) simp
    show ?thesis
    proof (cases "n < 10")
      case n: True
      then have "show_nat n = [digit_char n]" by (subst show_nat.simps) simp
      with m "1.prems" True n show ?thesis by (simp add: digit_char_inj)
    next
      case False
      then have "show_nat n = show_nat (n div 10) @ [digit_char (n mod 10)]"
        by (subst show_nat.simps) simp
      with m "1.prems" show_nat_nonempty[of "n div 10"] show ?thesis by simp
    qed
  next
    case False
    then have m: "show_nat m = show_nat (m div 10) @ [digit_char (m mod 10)]"
      by (subst show_nat.simps) simp
    show ?thesis
    proof (cases "n < 10")
      case True
      then have "show_nat n = [digit_char n]" by (subst show_nat.simps) simp
      with m "1.prems" show_nat_nonempty[of "m div 10"] show ?thesis by simp
    next
      case n: False
      then have "show_nat n = show_nat (n div 10) @ [digit_char (n mod 10)]"
        by (subst show_nat.simps) simp
      with m "1.prems" have q: "show_nat (m div 10) = show_nat (n div 10)"
        and r: "digit_char (m mod 10) = digit_char (n mod 10)" by simp_all
      from "1.IH"[OF False q] have "m div 10 = n div 10" .
      moreover from r have "m mod 10 = n mod 10" by (simp add: digit_char_inj)
      ultimately show ?thesis by (metis div_mult_mod_eq)
    qed
  qed
qed

lemma show_nat_1000: "show_nat 1000 = ''1000''"
  by (simp add: show_nat.simps digit_char_def)

subsection \<open>The requests of fetchAllContentfulItems\<close>

lemma first_request_eq: "get_request config (first_url config) = first_request config"
  by (simp add: get_request_def first_url_def first_request_def entries_url_def environment_url_def
        bearer_def limit_def show_nat_1000)

lemma page_request_eq: "get_request config (page_url config p) = page_request config p"
  by (simp add: get_request_def page_url_def first_url_def page_request_def entries_url_def
        environment_url_def bearer_def limit_def show_nat_1000)

lemma page_request_not_first: "page_request config p \<noteq> first_request config"
  by (simp add: page_request_def first_request_def show_nat_nonempty)

lemma page_request_inj: "page_request config p = page_request config q \<Longrightarrow> p = q"
  using show_nat_inj[of "p * 1000" "q * 1000"] by (simp add: page_request_def)

lemma remainingPages_later: "n > limit \<Longrightarrow> [1..<Suc (remainingPages n)] = later_pages n"
proof -
  assume "n > limit"
  then have n: "n > 1000" by (simp add: limit_def)
  then have "n - 1000 + 999 = n - 1" by simp
  then have "remainingPages n = (n - 1) div 1000" by (simp add: remainingPages_def limit_def)
  with n show ?thesis by (simp add: later_pages_def)
qed

lemma later_pages_small: "\<not> n > limit \<Longrightarrow> later_pages n = []"
  by (simp add: later_pages_def limit_def)

lemma fetch_pages_first_ok:
  assumes "fetchWithTimeout (first_request config) = Inr r" and "ok r" and "json r = Inr (Some d)"
  shows "fetch_pages config fetchWithTimeout =
           (Inr (Some d # map (page_data fetchWithTimeout)
                            (map (page_request config) (later_pages (declared_total d)))),
            expected_requests config (declared_total d))"
proof (cases "declared_total d > limit")
  case True
  with assms remainingPages_later[OF True] show ?thesis
    by (simp add: fetch_pages_def first_request_eq page_request_eq expected_requests_def
          declared_total_def Let_def)
next
  case False
  with assms later_pages_small[OF False] show ?thesis
    by (simp add: fetch_pages_def first_request_eq expected_requests_def declared_total_def Let_def)
qed

lemma fetch_pages_first_fails:
  assumes "first_page_fails config fetchWithTimeout"
  shows "\<exists>err. fetch_pages config fetchWithTimeout = (Inl err, [first_request config])"
  using assms
  by (auto simp: fetch_pages_def first_page_fails_def first_request_eq Let_def
        split: sum.splits option.splits)

subsection \<open>The merged map is the last stored binding of each key\<close>

lemma process_item_cases:
  "process_item config acc item =
     (if sys item = None then Inl no_sys_error
      else if stored config item
      then Inr (acc(fst (binding config item) \<mapsto> snd (binding config item)))
      else Inr acc)"
  by (auto simp: process_item_def stored_def usable_def binding_def split: option.splits)

lemma process_items_readable:
  "list_all (\<lambda>e. sys e \<noteq> None) its \<Longrightarrow>
     process_items config acc its
       = Inr (acc ++ map_of (rev (map (binding config) (filter (stored config) its))))"
proof (induction its arbitrary: acc)
  case Nil
  then show ?case by simp
next
  case (Cons item its)
  from Cons.prems have s: "sys item \<noteq> None" and rest: "list_all (\<lambda>e. sys e \<noteq> None) its"
    by simp_all
  let ?M = "map_of (rev (map (binding config) (filter (stored config) its)))"
  show ?case
  proof (cases "stored config item")
    case True
    obtain k b where kb: "binding config item = (k, b)" by (cases "binding config item")
    have step: "process_item config acc item = Inr (acc(k \<mapsto> b))"
      using True s kb by (simp add: process_item_cases)
    have "process_items config acc (item # its) = process_items config (acc(k \<mapsto> b)) its"
      by (simp add: step)
    also have "\<dots> = Inr (acc(k \<mapsto> b) ++ ?M)" by (rule Cons.IH[OF rest])
    also have "\<dots> = Inr (acc ++ (map_of [(k, b)] ++ ?M))"
      by (simp add: map_add_assoc[symmetric])
    also have "\<dots> = Inr (acc ++ map_of (rev (map (binding config) (filter (stored config) (item # its)))))"
      using True kb by simp
    finally show ?thesis .
  next
    case False
    with s have "process_item config acc item = Inr acc" by (simp add: process_item_cases)
    with Cons.IH[OF rest, of acc] False show ?thesis by simp
  qed
qed

lemma process_items_unreadable:
  "\<not> list_all (\<lambda>e. sys e \<noteq> None) its \<Longrightarrow> process_items config acc its = Inl no_sys_error"
proof (induction its arbitrary: acc)
  case Nil
  then show ?case by simp
next
  case (Cons item its)
  show ?case
  proof (cases "sys item = None")
    case True
    then show ?thesis by (simp add: process_item_cases)
  next
    case False
    with Cons.prems have "\<not> list_all (\<lambda>e. sys e \<noteq> None) its" by simp
    from Cons.IH[OF this] False show ?thesis by (simp add: process_item_cases)
  qed
qed

lemma process_page_readable:
  "readable [p] \<Longrightarrow>
     process_page config acc p
       = Inr (acc ++ map_of (rev (map (binding config) (filter (stored config) (entries_of [p])))))"
proof (cases p)
  case None
  assume "readable [p]"
  with None show ?thesis by (simp add: readable_def)
next
  case (Some d)
  assume r: "readable [p]"
  show ?thesis
  proof (cases "items d")
    case None
    with Some show ?thesis by (simp add: entries_of_def process_page_def)
  next
    case its: (Some its)
    with Some r have "list_all (\<lambda>e. sys e \<noteq> None) its" by (simp add: readable_def)
    from process_items_readable[OF this, of config acc] Some its show ?thesis
      by (simp add: entries_of_def process_page_def)
  qed
qed

lemma process_page_unreadable: "\<not> readable [p] \<Longrightarrow> isl (process_page config acc p)"
proof (cases p)
  case None
  then show ?thesis by (simp add: process_page_def)
next
  case (Some d)
  assume r: "\<not> readable [p]"
  show ?thesis
  proof (cases "items d")
    case None
    with Some r show ?thesis by (simp add: readable_def)
  next
    case its: (Some its)
    with Some r have "\<not> list_all (\<lambda>e. sys e \<noteq> None) its" by (simp add: readable_def)
    from process_items_unreadable[OF this, of config acc] Some its show ?thesis
      by (simp add: process_page_def)
  qed
qed

lemma readable_Cons: "readable (p # ps) \<longleftrightarrow> readable [p] \<and> readable ps"
  by (simp add: readable_def)

lemma entries_of_Cons: "entries_of (p # ps) = entries_of [p] @ entries_of ps"
  by (simp add: entries_of_def)

lemma merge_loop_readable:
  "readable allPages \<Longrightarrow>
     merge_loop config acc allPages
       = Inr (acc ++ map_of (rev (map (binding config) (filter (stored config) (entries_of allPages)))))"
proof (induction allPages arbitrary: acc)
  case Nil
  then show ?case by (simp add: entries_of_def)
next
  case (Cons p ps)
  from Cons.prems readable_Cons[of p ps] have p: "readable [p]" and ps: "readable ps" by simp_all
  let ?Mp = "map_of (rev (map (binding config) (filter (stored config) (entries_of [p]))))"
  let ?Mps = "map_of (rev (map (binding config) (filter (stored config) (entries_of ps))))"
  have "merge_loop config acc (p # ps) = merge_loop config (acc ++ ?Mp) ps"
    by (simp add: process_page_readable[OF p])
  also have "\<dots> = Inr ((acc ++ ?Mp) ++ ?Mps)" by (rule Cons.IH[OF ps])
  also have "\<dots> = Inr (acc ++ map_of (rev (map (binding config) (filter (stored config) (entries_of (p # ps))))))"
    by (simp add: entries_of_Cons[of p ps])
  finally show ?case .
qed

lemma merge_loop_unreadable: "\<not> readable allPages \<Longrightarrow> isl (merge_loop config acc allPages)"
proof (induction allPages arbitrary: acc)
  case Nil
  then show ?case by (simp add: readable_def)
next
  case (Cons p ps)
  show ?case
  proof (cases "readable [p]")
    case True
    with Cons.prems readable_Cons[of p ps] have "\<not> readable ps" by simp
    from Cons.IH[OF this] show ?thesis by (simp add: process_page_readable[OF True])
  next
    case False
    from process_page_unreadable[OF False, of config acc] show ?thesis
      by (cases "process_page config acc p") simp_all
  qed
qed

subsection \<open>What the pages hold, read off the transport\<close>

lemma page_data_entries:
  "entries_of (map (page_data fetchWithTimeout) reqs)
     = concat (map (received_entries fetchWithTimeout) reqs)"
proof (induction reqs)
  case Nil
  then show ?case by (simp add: entries_of_def)
next
  case (Cons q qs)
  have "entries_of [page_data fetchWithTimeout q] = received_entries fetchWithTimeout q"
    by (simp add: entries_of_def page_data_def received_entries_def empty_page_def
          split: sum.splits option.splits)
  with Cons entries_of_Cons[of "page_data fetchWithTimeout q" "map (page_data fetchWithTimeout) qs"]
  show ?case by simp
qed

lemma page_data_readable:
  "readable (map (page_data fetchWithTimeout) reqs)
     \<longleftrightarrow> list_all (\<lambda>q. \<not> body_throws fetchWithTimeout q) reqs"
proof (induction reqs)
  case Nil
  then show ?case by (simp add: readable_def)
next
  case (Cons q qs)
  have "readable [page_data fetchWithTimeout q] \<longleftrightarrow> \<not> body_throws fetchWithTimeout q"
    by (simp add: readable_def page_data_def body_throws_def empty_page_def
          split: sum.splits option.splits)
  with Cons readable_Cons[of "page_data fetchWithTimeout q" "map (page_data fetchWithTimeout) qs"]
  show ?case by simp
qed

text \<open>
  Once the first request is answered with an ok status and a body that parses to an object
  \<open>d\<close>: the requests issued are those of a complete walk over the total that \<open>d\<close> declares;
  the call rejects exactly when the body of one of them throws in the merge; otherwise it
  resolves to the map of the stored entries received, the last binding of a key winning.
\<close>

lemma fetchAll_first_ok:
  assumes first: "fetchWithTimeout (first_request config) = Inr r" "ok r" "json r = Inr (Some d)"
  shows "snd (fetchAllContentfulItems config fetchWithTimeout) = expected_requests config (declared_total d)"
    and "list_all (\<lambda>q. \<not> body_throws fetchWithTimeout q) (expected_requests config (declared_total d)) \<Longrightarrow>
         fst (fetchAllContentfulItems config fetchWithTimeout)
           = Inr (map_of (rev (map (binding config) (filter (stored config)
                    (concat (map (received_entries fetchWithTimeout)
                               (expected_requests config (declared_total d))))))))"
    and "\<not> list_all (\<lambda>q. \<not> body_throws fetchWithTimeout q) (expected_requests config (declared_total d)) \<Longrightarrow>
         isl (fst (fetchAllContentfulItems config fetchWithTimeout))"
proof -
  let ?later = "map (page_request config) (later_pages (declared_total d))"
  let ?pages = "Some d # map (page_data fetchWithTimeout) ?later"
  let ?reqs = "expected_requests config (declared_total d)"
  note P = fetch_pages_first_ok[of fetchWithTimeout config r d, OF first]
  have E1: "entries_of [Some d] = received_entries fetchWithTimeout (first_request config)"
    using first by (simp add: entries_of_def received_entries_def split: option.splits)
  have R1: "readable [Some d] \<longleftrightarrow> \<not> body_throws fetchWithTimeout (first_request config)"
    using first by (simp add: readable_def body_throws_def split: option.splits)
  have reqs: "?reqs = first_request config # ?later" by (simp only: expected_requests_def)
  have "entries_of ?pages = entries_of [Some d] @ entries_of (map (page_data fetchWithTimeout) ?later)"
    by (rule entries_of_Cons)
  also have "\<dots> = received_entries fetchWithTimeout (first_request config)
                   @ concat (map (received_entries fetchWithTimeout) ?later)"
    by (simp only: E1 page_data_entries)
  also have "\<dots> = concat (map (received_entries fetchWithTimeout) ?reqs)"
    by (simp only: reqs list.map concat.simps)
  finally have E: "entries_of ?pages = concat (map (received_entries fetchWithTimeout) ?reqs)" .
  have "readable ?pages \<longleftrightarrow> readable [Some d] \<and> readable (map (page_data fetchWithTimeout) ?later)"
    by (rule readable_Cons)
  also have "\<dots> \<longleftrightarrow> \<not> body_throws fetchWithTimeout (first_request config)
                     \<and> list_all (\<lambda>q. \<not> body_throws fetchWithTimeout q) ?later"
    by (simp only: R1 page_data_readable)
  also have "\<dots> \<longleftrightarrow> list_all (\<lambda>q. \<not> body_throws fetchWithTimeout q) ?reqs"
    by (simp add: reqs)
  finally have R: "readable ?pages \<longleftrightarrow> list_all (\<lambda>q. \<not> body_throws fetchWithTimeout q) ?reqs" .
  show "snd (fetchAllContentfulItems config fetchWithTimeout) = ?reqs"
    using P by (simp add: fetchAllContentfulItems_def split: sum.splits)
  show "fst (fetchAllContentfulItems config fetchWithTimeout)
           = Inr (map_of (rev (map (binding config) (filter (stored config)
                    (concat (map (received_entries fetchWithTimeout) ?reqs))))))"
    if "list_all (\<lambda>q. \<not> body_throws fetchWithTimeout q) ?reqs"
  proof -
    from that R have "readable ?pages" by simp
    from merge_loop_readable[OF this, of config Map.empty] E
    have "merge_pages config ?pages
            = Inr (map_of (rev (map (binding config) (filter (stored config)
                    (concat (map (received_entries fetchWithTimeout) ?reqs))))))"
      by (simp add: merge_pages_def)
    with P show ?thesis by (simp add: fetchAllContentfulItems_def)
  qed
  show "isl (fst (fetchAllContentfulItems config fetchWithTimeout))"
    if "\<not> list_all (\<lambda>q. \<not> body_throws fetchWithTimeout q) ?reqs"
  proof -
    from that R have "\<not> readable ?pages" by simp
    from merge_loop_unreadable[OF this, of config Map.empty]
    obtain err where "merge_pages config ?pages = Inl err"
      by (cases "merge_pages config ?pages") (simp_all add: merge_pages_def)
    with P show ?thesis by (simp add: fetchAllContentfulItems_def)
  qed
qed

lemma fetchAll_first_fails:
  assumes "first_page_fails config fetchWithTimeout"
  shows "isl (fst (fetchAllContentfulItems config fetchWithTimeout))"
    and "snd (fetchAllContentfulItems config fetchWithTimeout) = [first_request config]"
  using fetch_pages_first_fails[OF assms]
  by (auto simp: fetchAllContentfulItems_def)

lemma stored_map_dom:
  assumes "list_all (stored config) es" and "distinct (map (entry_key config) es)"
  shows "dom (map_of (rev (map (binding config) (filter (stored config) es))))
           = (\<lambda>e. the (entry_key config e)) ` set es"
    and "card (dom (map_of (rev (map (binding config) (filter (stored config) es))))) = length es"
proof -
  from assms(1) have f: "filter (stored config) es = es"
    by (simp add: filter_id_conv list_all_iff)
  show d: "dom (map_of (rev (map (binding config) (filter (stored config) es))))
           = (\<lambda>e. the (entry_key config e)) ` set es"
    by (simp add: f dom_map_of_conv_image_fst image_image binding_def)
  have some: "\<exists>k. entry_key config e = Some k" if "e \<in> set es" for e
    using assms(1) that by (auto simp: stored_def usable_def list_all_iff split: option.splits)
  have "inj_on (\<lambda>e. the (entry_key config e)) (set es)"
  proof (rule inj_onI)
    fix x y assume x: "x \<in> set es" and y: "y \<in> set es"
      and eq: "the (entry_key config x) = the (entry_key config y)"
    from some[OF x] some[OF y] eq have "entry_key config x = entry_key config y" by auto
    with assms(2) x y show "x = y" by (meson distinct_map inj_onD)
  qed
  moreover from assms(2) have "distinct es" by (simp add: distinct_map)
  ultimately show "card (dom (map_of (rev (map (binding config) (filter (stored config) es))))) = length es"
    unfolding d by (simp add: card_image distinct_card)
qed

subsection \<open>Archived entries\<close>

lemma fetchAll_pages:
  "fetchAllContentfulItems config fetchWithTimeout = (Inr m, reqs) \<Longrightarrow>
     \<exists>allPages. fetch_pages config fetchWithTimeout = (Inr allPages, reqs) \<and>
                merge_pages config allPages = Inr m"
  by (auto simp: fetchAllContentfulItems_def split: prod.splits sum.splits)

lemma merge_pages_resolved:
  assumes "merge_pages config allPages = Inr m"
  shows "readable allPages"
    and "m = map_of (rev (map (binding config) (filter (stored config) (entries_of allPages))))"
proof -
  show r: "readable allPages"
  proof (rule ccontr)
    assume "\<not> readable allPages"
    from merge_loop_unreadable[OF this, of config Map.empty] assms show False
      by (simp add: merge_pages_def)
  qed
  from merge_loop_readable[OF r, of config Map.empty] assms
  show "m = map_of (rev (map (binding config) (filter (stored config) (entries_of allPages))))"
    by (simp add: merge_pages_def)
qed

lemma filter_stored_not_archived:
  "filter (stored config) (filter (\<lambda>e. \<not> is_archived e) its) = filter (stored config) its"
  by (induction its) (auto simp: stored_def usable_def is_archived_def split: option.splits)

lemma drop_archived_page:
  "filter (stored config) (entries_of [drop_archived p]) = filter (stored config) (entries_of [p])"
  "readable [p] \<Longrightarrow> readable [drop_archived p]"
proof -
  show "filter (stored config) (entries_of [drop_archived p]) = filter (stored config) (entries_of [p])"
  proof (cases p)
    case None
    then show ?thesis by (simp add: drop_archived_def)
  next
    case (Some d)
    then show ?thesis
      by (cases "items d")
         (simp_all add: drop_archived_def entries_of_def filter_stored_not_archived del: filter_filter)
  qed
  show "readable [drop_archived p]" if "readable [p]"
  proof (cases p)
    case None
    with that show ?thesis by (simp add: readable_def)
  next
    case (Some d)
    with that show ?thesis
      by (cases "items d") (simp_all add: drop_archived_def readable_def list_all_iff)
  qed
qed

lemma drop_archived_pages:
  "filter (stored config) (entries_of (map drop_archived allPages))
     = filter (stored config) (entries_of allPages)"
  "readable allPages \<Longrightarrow> readable (map drop_archived allPages)"
proof -
  show "filter (stored config) (entries_of (map drop_archived allPages))
     = filter (stored config) (entries_of allPages)"
  proof (induction allPages)
    case Nil
    then show ?case by simp
  next
    case (Cons p ps)
    from Cons drop_archived_page(1)[of config p]
      entries_of_Cons[of p ps] entries_of_Cons[of "drop_archived p" "map drop_archived ps"]
    show ?case by simp
  qed
  show "readable allPages \<Longrightarrow> readable (map drop_archived allPages)"
  proof (induction allPages)
    case Nil
    then show ?case by simp
  next
    case (Cons p ps)
    from Cons.prems readable_Cons[of p ps] have p: "readable [p]" and ps: "readable ps" by simp_all
    from drop_archived_page(2)[OF p] Cons.IH[OF ps]
      readable_Cons[of "drop_archived p" "map drop_archived ps"]
    show ?case by simp
  qed
qed

text \<open>
  The archived half of claim C5 holds for every response. When \<open>fetchAllContentfulItems\<close>
  resolves, the map it returns is built from the entries that are not archived alone: it is
  the map the same pages give once their archived entries are removed, and every binding
  comes from an entry without \<^verbatim>\<open>archivedVersion\<close>, with that entry's key, value and id. The
  key of every entry that is not archived, has a non-empty key and value and whose key is not
  \<^verbatim>\<open>__proto__\<close> is bound (to the last such entry with that key, in page order).
\<close>

lemma archived_entries_excluded:
  assumes "fetchAllContentfulItems config fetchWithTimeout = (Inr m, reqs)"
  shows "\<exists>allPages.
           fetch_pages config fetchWithTimeout = (Inr allPages, reqs) \<and>
           m = map_of (rev (map (binding config) (filter (stored config) (entries_of allPages)))) \<and>
           merge_pages config (map drop_archived allPages) = Inr m \<and>
           (\<forall>k v i. m k = Some (v, i) \<longrightarrow>
              (\<exists>item \<in> set (entries_of allPages).
                 \<not> is_archived item \<and> entry_key config item = Some k \<and>
                 entry_value config item = Some v \<and> map_option sys_id (sys item) = Some i)) \<and>
           (\<forall>item \<in> set (entries_of allPages).
              stored config item \<longrightarrow> (\<exists>k. entry_key config item = Some k \<and> k \<in> dom m))"
proof -
  from fetchAll_pages[OF assms] obtain allPages where
    P: "fetch_pages config fetchWithTimeout = (Inr allPages, reqs)" and
    M: "merge_pages config allPages = Inr m"
    by blast
  let ?bs = "map (binding config) (filter (stored config) (entries_of allPages))"
  note r = merge_pages_resolved(1)[OF M]
  note eq = merge_pages_resolved(2)[OF M]
  have dropped: "merge_pages config (map drop_archived allPages) = Inr m"
    using merge_loop_readable[OF drop_archived_pages(2)[OF r], of config Map.empty] eq
    by (simp add: merge_pages_def drop_archived_pages(1))
  have from_entry: "\<exists>item \<in> set (entries_of allPages).
                 \<not> is_archived item \<and> entry_key config item = Some k \<and>
                 entry_value config item = Some v \<and> map_option sys_id (sys item) = Some i"
    if "m k = Some (v, i)" for k v i
  proof -
    from that eq have "(k, v, i) \<in> set ?bs" by (auto dest: map_of_SomeD)
    then obtain item where "item \<in> set (entries_of allPages)" "stored config item"
      "binding config item = (k, v, i)" by auto
    then show ?thesis
      by (auto simp: stored_def usable_def binding_def is_archived_def split: option.splits)
  qed
  have bound: "\<exists>k. entry_key config item = Some k \<and> k \<in> dom m"
    if "item \<in> set (entries_of allPages)" "stored config item" for item
  proof -
    from that have "binding config item \<in> set (rev ?bs)" by simp
    then have "fst (binding config item) \<in> dom (map_of (rev ?bs))"
      by (metis domIff image_eqI map_of_eq_None_iff)
    with that(2) eq show ?thesis
      by (auto simp: stored_def usable_def binding_def split: option.splits)
  qed
  from P eq dropped from_entry bound show ?thesis by blast
qed

text \<open>
  Claim C5: an archived entry never appears in the returned map, and every entry that is not
  archived and has a usable key and value does. On a page with an active entry, an archived
  entry and an entry that is not archived with the key \<^verbatim>\<open>__proto__\<close> and the value
  \<^verbatim>\<open>value1000\<close>, the call resolves to the map with the single key \<^verbatim>\<open>active\<close>: the archived
  entry is left out, as claimed, and so is the entry with the key \<^verbatim>\<open>__proto__\<close>, which is
  not archived and has a non-empty key and value.
\<close>

theorem proto_key_entry_not_returned:
  "is_archived archived_entry \<and>
   \<not> is_archived proto_entry \<and> usable validConfig proto_entry \<and>
   entry_key validConfig proto_entry = Some ''__proto__'' \<and>
   entry_value validConfig proto_entry = Some ''value1000'' \<and>
   proto_server (first_request validConfig)
     = Inr \<lparr>status = 200, statusText = ''OK'', text_body = [],
            json = Inr (Some \<lparr>total_items = Some 3,
                               items = Some [active_entry, archived_entry, proto_entry]\<rparr>)\<rparr> \<and>
   fetchAllContentfulItems validConfig proto_server
     = (Inr [''active'' \<mapsto> (''Active Entry'', ''entry1'')], [first_request validConfig])"
proof -
  have keys: "entry_key validConfig proto_entry = Some ''__proto__''"
    "entry_value validConfig proto_entry = Some ''value1000''"
    "entry_key validConfig active_entry = Some ''active''"
    "entry_value validConfig active_entry = Some ''Active Entry''"
    by (simp_all add: entry_key_def entry_value_def unwrap_def proto_entry_def active_entry_def
          validConfig_def)
  have arch: "is_archived archived_entry" "\<not> is_archived proto_entry"
    by (simp_all add: is_archived_def archived_entry_def proto_entry_def)
  have us: "usable validConfig proto_entry"
    by (simp add: usable_def keys) (simp add: proto_entry_def)
  have srv: "proto_server (first_request validConfig)
     = Inr \<lparr>status = 200, statusText = ''OK'', text_body = [],
            json = Inr (Some \<lparr>total_items = Some 3,
                               items = Some [active_entry, archived_entry, proto_entry]\<rparr>)\<rparr>"
    by (simp add: proto_server_def ok_page_def)
  have sysf:
    "sys active_entry = Some \<lparr>sys_id = ''entry1'', version = None, archivedVersion = None\<rparr>"
    "sys archived_entry = Some \<lparr>sys_id = ''entry2'', version = None, archivedVersion = Some 1\<rparr>"
    "sys proto_entry = Some \<lparr>sys_id = ''entry1000'', version = Some 1, archivedVersion = None\<rparr>"
    by (simp_all add: active_entry_def archived_entry_def proto_entry_def)
  have items: "process_item validConfig acc active_entry = Inr (acc(''active'' \<mapsto> (''Active Entry'', ''entry1'')))"
    "process_item validConfig acc archived_entry = Inr acc"
    "process_item validConfig acc proto_entry = Inr acc" for acc
    by (simp_all add: process_item_def keys sysf)
  have "fetchAllContentfulItems validConfig proto_server
     = (Inr [''active'' \<mapsto> (''Active Entry'', ''entry1'')], [first_request validConfig])"
    by (simp add: fetchAllContentfulItems_def fetch_pages_def first_request_eq srv ok_def limit_def
          merge_pages_def process_page_def items Let_def)
  with keys arch us srv show ?thesis by simp
qed

subsection \<open>Numbered entries\<close>

lemma numbered_entry_key:
  "entry_key validConfig (numbered_entry i) = Some (''key'' @ show_nat i)"
  "entry_value validConfig (numbered_entry i) = Some (''value'' @ show_nat i)"
  by (simp_all add: entry_key_def entry_value_def numbered_entry_def validConfig_def unwrap_def)

lemma numbered_entry_sys:
  "sys (numbered_entry i)
     = Some \<lparr>sys_id = ''entry'' @ show_nat i, version = Some 1, archivedVersion = None\<rparr>"
  by (simp add: numbered_entry_def)

lemma numbered_entry_stored: "usable validConfig (numbered_entry i)" "stored validConfig (numbered_entry i)"
  by (simp_all add: stored_def usable_def numbered_entry_key numbered_entry_sys)

lemma proto_entry_key:
  "entry_key validConfig proto_entry = Some ''__proto__''"
  "entry_value validConfig proto_entry = Some ''value1000''"
  by (simp_all add: entry_key_def entry_value_def proto_entry_def validConfig_def unwrap_def)

lemma proto_entry_sys:
  "sys proto_entry = Some \<lparr>sys_id = ''entry1000'', version = Some 1, archivedVersion = None\<rparr>"
  by (simp add: proto_entry_def)

lemma proto_entry_usable: "usable validConfig proto_entry" "\<not> stored validConfig proto_entry"
  by (simp_all add: stored_def usable_def proto_entry_key proto_entry_sys)

lemma numbered_entries_props:
  "length (numbered_entries a b) = b - a"
  "list_all (usable validConfig) (numbered_entries a b)"
  "list_all (stored validConfig) (numbered_entries a b)"
  "list_all (\<lambda>e. sys e \<noteq> None) (numbered_entries a b)"
  "filter (stored validConfig) (numbered_entries a b) = numbered_entries a b"
  by (simp_all add: numbered_entries_def list_all_iff numbered_entry_stored numbered_entry_sys
        filter_id_conv)

lemma numbered_keys_distinct:
  "b \<le> c \<Longrightarrow> distinct (map (entry_key validConfig) (numbered_entries a b @ numbered_entries c d))"
proof -
  assume bc: "b \<le> c"
  have inj: "inj_on (\<lambda>i. entry_key validConfig (numbered_entry i)) A" for A
    by (rule inj_onI) (simp add: numbered_entry_key show_nat_inj)
  have "numbered_entries a b @ numbered_entries c d = map numbered_entry ([a..<b] @ [c..<d])"
    by (simp add: numbered_entries_def)
  moreover from bc have "distinct ([a..<b] @ [c..<d])" by auto
  ultimately show ?thesis
    using inj[of "set ([a..<b] @ [c..<d])"]
    by (simp only: map_map distinct_map comp_def)
qed

lemma numbered_keys_not_proto:
  "Some ''__proto__'' \<notin> set (map (entry_key validConfig) (numbered_entries a b))"
  "''__proto__'' \<notin> (\<lambda>e. the (entry_key validConfig e)) ` set (numbered_entries a b)"
  by (auto simp: numbered_entries_def numbered_entry_key)

subsection \<open>Pagination\<close>

text \<open>
  The pagination half of claim C6 holds for every declared total. Once the first request is
  answered with an ok status and a body \<open>d\<close>, the requests issued are the first page and, when
  the total \<open>n\<close> that \<open>d\<close> declares exceeds 1000, the pages \<open>1, ..., \<lceil>(n - 1000) / 1000\<rceil>\<close> at
  \<^verbatim>\<open>skip = page * 1000\<close>; when no body throws in the merge and the entries received are all
  stored (not archived, non-empty key and value, key other than \<^verbatim>\<open>__proto__\<close>) with pairwise
  distinct keys, the call resolves to a map with exactly one key per entry received.
\<close>

lemma pagination_complete:
  assumes first: "fetchWithTimeout (first_request config) = Inr r" "ok r" "json r = Inr (Some d)"
    and reads: "list_all (\<lambda>q. \<not> body_throws fetchWithTimeout q) (expected_requests config (declared_total d))"
    and es: "es = concat (map (received_entries fetchWithTimeout) (expected_requests config (declared_total d)))"
    and st: "list_all (stored config) es"
    and di: "distinct (map (entry_key config) es)"
  shows "snd (fetchAllContentfulItems config fetchWithTimeout)
           = first_request config # map (page_request config) (later_pages (declared_total d))"
    and "\<exists>m. fst (fetchAllContentfulItems config fetchWithTimeout) = Inr m \<and>
             dom m = (\<lambda>e. the (entry_key config e)) ` set es \<and> card (dom m) = length es"
proof -
  note F = fetchAll_first_ok[of fetchWithTimeout config r d, OF first]
  from F(1) show "snd (fetchAllContentfulItems config fetchWithTimeout)
           = first_request config # map (page_request config) (later_pages (declared_total d))"
    by (simp only: expected_requests_def)
  from F(2)[OF reads] es
  have "fst (fetchAllContentfulItems config fetchWithTimeout)
          = Inr (map_of (rev (map (binding config) (filter (stored config) es))))"
    by simp
  with stored_map_dom[OF st di]
  show "\<exists>m. fst (fetchAllContentfulItems config fetchWithTimeout) = Inr m \<and>
             dom m = (\<lambda>e. the (entry_key config e)) ` set es \<and> card (dom m) = length es"
    by simp
qed

lemma later_pages_values:
  "later_pages 1500 = [1]" "later_pages 2500 = [1, 2]" "later_pages 2001 = [1, 2]"
  "later_pages 1000 = []"
  by (simp_all add: later_pages_def upt_rec)

lemma first_url_entries: "first_url config = entries_url config"
  using first_request_eq[of config] by (simp add: get_request_def first_request_def)

lemma page_url_entries: "page_url config p = entries_url config @ ''&skip='' @ show_nat (p * 1000)"
  using page_request_eq[of config p] by (simp add: get_request_def page_request_def)

lemma paged_server_answers:
  "paged_server (first_request validConfig) = Inr (ok_page (Some 1500) (numbered_entries 0 1000))"
  "paged_server (page_request validConfig 1)
     = Inr (ok_page (Some 1500) (proto_entry # numbered_entries 1001 1500))"
  by (simp_all add: paged_server_def first_url_entries page_url_entries first_request_def
        page_request_def show_nat_nonempty)

lemma numbered_server_answers:
  "numbered_server (first_request validConfig) = Inr (ok_page (Some 1500) (numbered_entries 0 1000))"
  "numbered_server (page_request validConfig 1) = Inr (ok_page (Some 1500) (numbered_entries 1000 1500))"
  by (simp_all add: numbered_server_def first_url_entries page_url_entries first_request_def
        page_request_def show_nat_nonempty)

text \<open>
  On the server of the unit test "should handle pagination for large datasets" (declared
  total 1500, keys \<^verbatim>\<open>key0\<close> to \<^verbatim>\<open>key1499\<close>) the two requests are issued and the map has exactly
  1500 keys.
\<close>

lemma pagination_complete_unit_test:
  "snd (fetchAllContentfulItems validConfig numbered_server)
     = [first_request validConfig, page_request validConfig 1] \<and>
   (\<exists>m. fst (fetchAllContentfulItems validConfig numbered_server) = Inr m \<and> card (dom m) = 1500)"
proof -
  let ?d = "\<lparr>total_items = Some 1500, items = Some (numbered_entries 0 1000)\<rparr> :: entry collection"
  let ?r = "ok_page (Some 1500) (numbered_entries 0 1000)"
  let ?es = "numbered_entries 0 1000 @ numbered_entries 1000 1500"
  have first: "numbered_server (first_request validConfig) = Inr ?r" "ok ?r" "json ?r = Inr (Some ?d)"
    by (simp_all add: numbered_server_answers ok_def ok_page_def)
  have total: "declared_total ?d = 1500" by (simp add: declared_total_def)
  have later: "map (page_request validConfig) (later_pages (declared_total ?d)) = [page_request validConfig 1]"
    by (simp add: total later_pages_values)
  have reqs: "expected_requests validConfig (declared_total ?d)
                = [first_request validConfig, page_request validConfig 1]"
    by (simp only: expected_requests_def later)
  have e1: "received_entries numbered_server (first_request validConfig) = numbered_entries 0 1000"
    using numbered_server_answers(1) by (simp add: received_entries_def ok_page_def)
  have e2: "received_entries numbered_server (page_request validConfig 1) = numbered_entries 1000 1500"
    using numbered_server_answers(2) by (simp add: received_entries_def ok_page_def)
  have t1: "\<not> body_throws numbered_server (first_request validConfig)"
    using numbered_entries_props(4)[of 0 1000] numbered_server_answers(1)
    by (simp add: body_throws_def ok_page_def)
  have t2: "\<not> body_throws numbered_server (page_request validConfig 1)"
    using numbered_entries_props(4)[of 1000 1500] numbered_server_answers(2)
    by (simp add: body_throws_def ok_page_def)
  have reads: "list_all (\<lambda>q. \<not> body_throws numbered_server q)
                 (expected_requests validConfig (declared_total ?d))"
    using t1 t2 by (simp only: reqs list.pred_inject) simp
  have es: "?es = concat (map (received_entries numbered_server)
                           (expected_requests validConfig (declared_total ?d)))"
    by (simp only: reqs list.map concat.simps e1 e2 append_Nil2)
  have st: "list_all (stored validConfig) ?es"
    by (simp add: numbered_entries_props(3))
  have di: "distinct (map (entry_key validConfig) ?es)"
    by (rule numbered_keys_distinct) simp
  note P = pagination_complete[of numbered_server validConfig ?r ?d ?es, OF first reads es st di]
  from P(1) have log: "snd (fetchAllContentfulItems validConfig numbered_server)
     = [first_request validConfig, page_request validConfig 1]"
    by (simp only: later)
  from P(2) have "\<exists>m. fst (fetchAllContentfulItems validConfig numbered_server) = Inr m \<and> card (dom m) = 1500"
    by (auto simp: numbered_entries_props(1))
  with log show ?thesis by (intro conjI)
qed

text \<open>
  Claim C6: for a declared total of 1500 with page size 1000, all page requests succeeding
  with distinct non-archived keys, the merged result has exactly 1500 distinct keys. A server
  holds 1500 entries, none archived, each with a non-empty key and value, the 1500 keys
  pairwise distinct, one of them \<^verbatim>\<open>__proto__\<close>; it serves 1000 of them on the first page and
  500 at skip 1000. The two requests are issued and answered, and the call resolves to a map
  with 1499 keys, without the key \<^verbatim>\<open>__proto__\<close>.
\<close>

theorem pagination_drops_proto_key:
  "length (numbered_entries 0 1000 @ proto_entry # numbered_entries 1001 1500) = 1500 \<and>
   list_all (usable validConfig) (numbered_entries 0 1000 @ proto_entry # numbered_entries 1001 1500) \<and>
   distinct (map (entry_key validConfig)
               (numbered_entries 0 1000 @ proto_entry # numbered_entries 1001 1500)) \<and>
   paged_server (first_request validConfig)
     = Inr \<lparr>status = 200, statusText = ''OK'', text_body = [],
            json = Inr (Some \<lparr>total_items = Some 1500, items = Some (numbered_entries 0 1000)\<rparr>)\<rparr> \<and>
   paged_server (page_request validConfig 1)
     = Inr \<lparr>status = 200, statusText = ''OK'', text_body = [],
            json = Inr (Some \<lparr>total_items = Some 1500,
                               items = Some (proto_entry # numbered_entries 1001 1500)\<rparr>)\<rparr> \<and>
   snd (fetchAllContentfulItems validConfig paged_server)
     = [first_request validConfig, page_request validConfig 1] \<and>
   (\<exists>m. fst (fetchAllContentfulItems validConfig paged_server) = Inr m \<and>
        card (dom m) = 1499 \<and> ''__proto__'' \<notin> dom m \<and>
        dom m = (\<lambda>e. the (entry_key validConfig e)) `
                  set (numbered_entries 0 1000 @ numbered_entries 1001 1500))"
proof -
  let ?d = "\<lparr>total_items = Some 1500, items = Some (numbered_entries 0 1000)\<rparr> :: entry collection"
  let ?r = "ok_page (Some 1500) (numbered_entries 0 1000)"
  let ?es = "numbered_entries 0 1000 @ numbered_entries 1001 1500"
  have len: "length (numbered_entries 0 1000 @ proto_entry # numbered_entries 1001 1500) = 1500"
    by (simp add: numbered_entries_props(1))
  have us: "list_all (usable validConfig)
              (numbered_entries 0 1000 @ proto_entry # numbered_entries 1001 1500)"
    by (simp add: numbered_entries_props(2) proto_entry_usable)
  have d0: "distinct (map (entry_key validConfig) ?es)"
    by (rule numbered_keys_distinct) simp
  have di: "distinct (map (entry_key validConfig)
               (numbered_entries 0 1000 @ proto_entry # numbered_entries 1001 1500))"
    using d0 numbered_keys_not_proto(1)[of 0 1000] numbered_keys_not_proto(1)[of 1001 1500]
    by (simp add: proto_entry_key)
  have first: "paged_server (first_request validConfig) = Inr ?r" "ok ?r" "json ?r = Inr (Some ?d)"
    by (simp_all add: paged_server_answers ok_def ok_page_def)
  have total: "declared_total ?d = 1500" by (simp add: declared_total_def)
  have reqs: "expected_requests validConfig (declared_total ?d)
                = [first_request validConfig, page_request validConfig 1]"
    by (simp add: total expected_requests_def later_pages_values)
  have recv: "received_entries paged_server (first_request validConfig) = numbered_entries 0 1000"
    "received_entries paged_server (page_request validConfig 1) = proto_entry # numbered_entries 1001 1500"
    by (simp_all add: received_entries_def paged_server_answers paged_server_answers[unfolded One_nat_def]
          ok_page_def)
  have reads: "list_all (\<lambda>q. \<not> body_throws paged_server q) (expected_requests validConfig (declared_total ?d))"
    unfolding reqs
    using numbered_entries_props(4)[of 0 1000] numbered_entries_props(4)[of 1001 1500]
    by (simp add: body_throws_def paged_server_answers paged_server_answers[unfolded One_nat_def]
          ok_page_def proto_entry_sys)
  note F = fetchAll_first_ok[of paged_server validConfig ?r ?d, OF first]
  have log: "snd (fetchAllContentfulItems validConfig paged_server)
     = [first_request validConfig, page_request validConfig 1]"
    using F(1) by (simp only: reqs)
  have all_recv: "concat (map (received_entries paged_server)
                            [first_request validConfig, page_request validConfig 1])
                    = numbered_entries 0 1000 @ proto_entry # numbered_entries 1001 1500"
    by (simp only: list.map concat.simps recv append_Nil2)
  have "fst (fetchAllContentfulItems validConfig paged_server)
          = Inr (map_of (rev (map (binding validConfig) (filter (stored validConfig)
                   (numbered_entries 0 1000 @ proto_entry # numbered_entries 1001 1500)))))"
    using F(2)[OF reads] by (simp only: reqs all_recv)
  moreover have "filter (stored validConfig)
                   (numbered_entries 0 1000 @ proto_entry # numbered_entries 1001 1500)
                 = filter (stored validConfig) ?es"
    by (simp add: proto_entry_usable)
  ultimately have res: "fst (fetchAllContentfulItems validConfig paged_server)
          = Inr (map_of (rev (map (binding validConfig) (filter (stored validConfig) ?es))))"
    by simp
  have st: "list_all (stored validConfig) ?es"
    by (simp add: numbered_entries_props(3))
  note D = stored_map_dom[OF st d0]
  have card: "card (dom (map_of (rev (map (binding validConfig) (filter (stored validConfig) ?es))))) = 1499"
    using D(2) by (simp add: numbered_entries_props(1))
  have absent: "''__proto__'' \<notin> dom (map_of (rev (map (binding validConfig) (filter (stored validConfig) ?es))))"
    unfolding D(1) using numbered_keys_not_proto(2)[of 0 1000] numbered_keys_not_proto(2)[of 1001 1500]
    by (simp add: image_Un)
  have answers: "paged_server (first_request validConfig)
     = Inr \<lparr>status = 200, statusText = ''OK'', text_body = [],
            json = Inr (Some \<lparr>total_items = Some 1500, items = Some (numbered_entries 0 1000)\<rparr>)\<rparr>"
    "paged_server (page_request validConfig 1)
     = Inr \<lparr>status = 200, statusText = ''OK'', text_body = [],
            json = Inr (Some \<lparr>total_items = Some 1500,
                               items = Some (proto_entry # numbered_entries 1001 1500)\<rparr>)\<rparr>"
    by (simp_all add: paged_server_answers paged_server_answers[unfolded One_nat_def] ok_page_def)
  from res card absent D(1)
  have ex: "\<exists>m. fst (fetchAllContentfulItems validConfig paged_server) = Inr m \<and>
        card (dom m) = 1499 \<and> ''__proto__'' \<notin> dom m \<and>
        dom m = (\<lambda>e. the (entry_key validConfig e)) ` set ?es"
    by blast
  from len us di answers log ex show ?thesis by (intro conjI)
qed

subsection \<open>Page requests that fail\<close>

lemma show_nat_eq_iff: "show_nat m = show_nat n \<longleftrightarrow> m = n"
  using show_nat_inj by blast

lemma flaky_server_answers:
  "flaky_server (first_request validConfig) = Inr (ok_page (Some 2500) (numbered_entries 0 1000))"
  "flaky_server (page_request validConfig 1) = Inr (ok_page (Some 2500) (numbered_entries 1000 2000))"
  "flaky_server (page_request validConfig 2) = Inl request_timeout"
  by (simp_all add: flaky_server_def first_url_entries page_url_entries first_request_def
        page_request_def show_nat_nonempty show_nat_eq_iff)

lemma null_body_server_answers:
  "null_body_server (first_request validConfig) = Inr (ok_page (Some 1500) [numbered_entry 0])"
  "null_body_server (page_request validConfig 1) = Inr null_page"
  by (simp_all add: null_body_server_def first_url_entries first_request_def page_request_def
        show_nat_nonempty)

text \<open>
  Claim C10, as stated: only a failure of the first page request rejects the whole call. The
  first request is answered with status 200 and a page that declares 1500 entries; the
  request for the page at skip 1000 is answered with status 200 and the body \<^verbatim>\<open>null\<close>. The
  handler of the page request passes \<^verbatim>\<open>null\<close> on, the merge loop reads \<^verbatim>\<open>pageData.items\<close> of
  it outside that handler, and the call rejects.
\<close>

theorem later_null_body_rejects:
  "\<not> first_page_fails validConfig null_body_server \<and>
   null_body_server (first_request validConfig)
     = Inr \<lparr>status = 200, statusText = ''OK'', text_body = [],
            json = Inr (Some \<lparr>total_items = Some 1500, items = Some [numbered_entry 0]\<rparr>)\<rparr> \<and>
   null_body_server (page_request validConfig 1)
     = Inr \<lparr>status = 200, statusText = ''OK'', text_body = ''null'', json = Inr None\<rparr> \<and>
   fetchAllContentfulItems validConfig null_body_server
     = (Inl (JsError ''Error''
          ''Failed to fetch Contentful items: Cannot read properties of null (reading 'items')''),
        [first_request validConfig, page_request validConfig 1])"
proof -
  let ?d = "\<lparr>total_items = Some 1500, items = Some [numbered_entry 0]\<rparr> :: entry collection"
  let ?r = "ok_page (Some 1500) [numbered_entry 0]"
  have first: "null_body_server (first_request validConfig) = Inr ?r" "ok ?r" "json ?r = Inr (Some ?d)"
    by (simp_all add: null_body_server_answers ok_def ok_page_def)
  have nf: "\<not> first_page_fails validConfig null_body_server"
    by (simp add: first_page_fails_def first)
  have a1: "null_body_server (first_request validConfig)
     = Inr \<lparr>status = 200, statusText = ''OK'', text_body = [],
            json = Inr (Some \<lparr>total_items = Some 1500, items = Some [numbered_entry 0]\<rparr>)\<rparr>"
    by (simp add: null_body_server_answers ok_page_def)
  have a2: "null_body_server (page_request validConfig 1)
     = Inr \<lparr>status = 200, statusText = ''OK'', text_body = ''null'', json = Inr None\<rparr>"
    using null_body_server_answers(2) by (simp add: null_page_def)
  have total: "declared_total ?d = 1500" by (simp add: declared_total_def)
  have later: "map (page_request validConfig) (later_pages (declared_total ?d)) = [page_request validConfig 1]"
    by (simp add: total later_pages_values)
  have reqs: "expected_requests validConfig (declared_total ?d)
                = [first_request validConfig, page_request validConfig 1]"
    by (simp only: expected_requests_def later)
  have pd: "page_data null_body_server (page_request validConfig 1) = None"
    using a2 by (simp add: page_data_def)
  have pages: "fetch_pages validConfig null_body_server
                 = (Inr [Some ?d, None], [first_request validConfig, page_request validConfig 1])"
    using fetch_pages_first_ok[of null_body_server validConfig ?r ?d, OF first]
    by (simp only: later reqs list.map pd)
  have "merge_pages validConfig [Some ?d, None] = Inl null_items_error"
    by (simp add: merge_pages_def process_page_def process_item_cases numbered_entry_sys)
  with pages have "fetchAllContentfulItems validConfig null_body_server
     = (Inl (JsError ''Error''
          ''Failed to fetch Contentful items: Cannot read properties of null (reading 'items')''),
        [first_request validConfig, page_request validConfig 1])"
    by (simp add: fetchAllContentfulItems_def null_items_error_def)
  with nf a1 a2 show ?thesis by (intro conjI)
qed

text \<open>
  Claim C10, amended. When the first request fails (it rejects, its status is not ok, or its
  body does not parse to an object), the call rejects and no other request is made. When
  the first request is answered with an ok status and a body that declares \<open>n\<close> entries, the
  requests issued are the first page and the pages \<open>1, ..., \<lceil>(n - 1000) / 1000\<rceil>\<close> when \<open>n\<close>
  exceeds 1000; a request among them that rejects, or whose body does not parse, contributes
  no entry and no error; the call rejects exactly when the body of one of the requests throws
  in the merge (it parses to \<^verbatim>\<open>null\<close>, or it holds an item without \<^verbatim>\<open>sys\<close>); otherwise it
  resolves to the map of the stored entries of the bodies received, which can hold fewer keys
  than the declared total.
\<close>

theorem later_page_failures_swallowed:
  "(first_page_fails config fetchWithTimeout \<longrightarrow>
      isl (fst (fetchAllContentfulItems config fetchWithTimeout)) \<and>
      snd (fetchAllContentfulItems config fetchWithTimeout) = [first_request config]) \<and>
   (\<forall>r d. fetchWithTimeout (first_request config) = Inr r \<and> ok r \<and> json r = Inr (Some d) \<longrightarrow>
      snd (fetchAllContentfulItems config fetchWithTimeout)
        = first_request config # map (page_request config) (later_pages (declared_total d)) \<and>
      (isl (fst (fetchAllContentfulItems config fetchWithTimeout)) \<longleftrightarrow>
         (\<exists>q \<in> set (first_request config # map (page_request config) (later_pages (declared_total d))).
            body_throws fetchWithTimeout q)) \<and>
      ((\<forall>q \<in> set (first_request config # map (page_request config) (later_pages (declared_total d))).
            \<not> body_throws fetchWithTimeout q) \<longrightarrow>
         fst (fetchAllContentfulItems config fetchWithTimeout)
           = Inr (map_of (rev (map (binding config) (filter (stored config)
                    (concat (map (received_entries fetchWithTimeout)
                       (first_request config #
                        map (page_request config) (later_pages (declared_total d))))))))))) \<and>
   (\<forall>q. isl (fetchWithTimeout q) \<or> (\<exists>r. fetchWithTimeout q = Inr r \<and> isl (json r)) \<longrightarrow>
      received_entries fetchWithTimeout q = [] \<and> \<not> body_throws fetchWithTimeout q \<and>
      page_data fetchWithTimeout q = Some \<lparr>total_items = None, items = Some []\<rparr>)"
proof (intro conjI allI impI)
  assume f: "first_page_fails config fetchWithTimeout"
  from fetchAll_first_fails[OF f]
  show "isl (fst (fetchAllContentfulItems config fetchWithTimeout))"
    and "snd (fetchAllContentfulItems config fetchWithTimeout) = [first_request config]"
    by simp_all
next
  fix r d
  assume a: "fetchWithTimeout (first_request config) = Inr r \<and> ok r \<and> json r = Inr (Some d)"
  then have first: "fetchWithTimeout (first_request config) = Inr r" "ok r" "json r = Inr (Some d)"
    by simp_all
  let ?reqs = "first_request config # map (page_request config) (later_pages (declared_total d))"
  have reqs: "expected_requests config (declared_total d) = ?reqs"
    by (simp only: expected_requests_def)
  note F = fetchAll_first_ok[of fetchWithTimeout config r d, OF first, unfolded reqs]
  show "snd (fetchAllContentfulItems config fetchWithTimeout) = ?reqs" by (rule F(1))
  show "isl (fst (fetchAllContentfulItems config fetchWithTimeout)) \<longleftrightarrow>
          (\<exists>q \<in> set ?reqs. body_throws fetchWithTimeout q)"
  proof (cases "list_all (\<lambda>q. \<not> body_throws fetchWithTimeout q) ?reqs")
    case True
    from F(2)[OF True] True show ?thesis by (simp add: list_all_iff)
  next
    case False
    from F(3)[OF False] False show ?thesis by (simp add: list_all_iff)
  qed
  assume "\<forall>q \<in> set ?reqs. \<not> body_throws fetchWithTimeout q"
  then have "list_all (\<lambda>q. \<not> body_throws fetchWithTimeout q) ?reqs" by (simp add: list_all_iff)
  from F(2)[OF this]
  show "fst (fetchAllContentfulItems config fetchWithTimeout)
           = Inr (map_of (rev (map (binding config) (filter (stored config)
                    (concat (map (received_entries fetchWithTimeout) ?reqs))))))" .
next
  fix q
  assume f: "isl (fetchWithTimeout q) \<or> (\<exists>r. fetchWithTimeout q = Inr r \<and> isl (json r))"
  then show "received_entries fetchWithTimeout q = []"
    by (auto simp: received_entries_def split: sum.splits)
  from f show "\<not> body_throws fetchWithTimeout q"
    by (auto simp: body_throws_def split: sum.splits)
  from f show "page_data fetchWithTimeout q = Some \<lparr>total_items = None, items = Some []\<rparr>"
    by (auto simp: page_data_def empty_page_def split: sum.splits)
qed

theorem later_page_failures_swallowed_witness:
  "\<not> first_page_fails validConfig flaky_server \<and>
   flaky_server (first_request validConfig)
     = Inr \<lparr>status = 200, statusText = ''OK'', text_body = [],
            json = Inr (Some \<lparr>total_items = Some 2500, items = Some (numbered_entries 0 1000)\<rparr>)\<rparr> \<and>
   flaky_server (page_request validConfig 1)
     = Inr \<lparr>status = 200, statusText = ''OK'', text_body = [],
            json = Inr (Some \<lparr>total_items = Some 2500, items = Some (numbered_entries 1000 2000)\<rparr>)\<rparr> \<and>
   flaky_server (page_request validConfig 2) = Inl request_timeout \<and>
   received_entries flaky_server (page_request validConfig 2) = [] \<and>
   snd (fetchAllContentfulItems validConfig flaky_server)
     = [first_request validConfig, page_request validConfig 1, page_request validConfig 2] \<and>
   (\<exists>m. fst (fetchAllContentfulItems validConfig flaky_server) = Inr m \<and>
        card (dom m) = 2000 \<and>
        dom m = (\<lambda>e. the (entry_key validConfig e)) `
                  set (numbered_entries 0 1000 @ numbered_entries 1000 2000))"
proof -
  let ?d = "\<lparr>total_items = Some 2500, items = Some (numbered_entries 0 1000)\<rparr> :: entry collection"
  let ?r = "ok_page (Some 2500) (numbered_entries 0 1000)"
  let ?es = "numbered_entries 0 1000 @ numbered_entries 1000 2000"
  let ?reqs = "[first_request validConfig, page_request validConfig 1, page_request validConfig 2]"
  have first: "flaky_server (first_request validConfig) = Inr ?r" "ok ?r" "json ?r = Inr (Some ?d)"
    by (simp_all add: flaky_server_answers ok_def ok_page_def)
  have nf: "\<not> first_page_fails validConfig flaky_server"
    by (simp add: first_page_fails_def first)
  have a1: "flaky_server (first_request validConfig)
     = Inr \<lparr>status = 200, statusText = ''OK'', text_body = [],
            json = Inr (Some \<lparr>total_items = Some 2500, items = Some (numbered_entries 0 1000)\<rparr>)\<rparr>"
    by (simp add: flaky_server_answers ok_page_def)
  have a2: "flaky_server (page_request validConfig 1)
     = Inr \<lparr>status = 200, statusText = ''OK'', text_body = [],
            json = Inr (Some \<lparr>total_items = Some 2500, items = Some (numbered_entries 1000 2000)\<rparr>)\<rparr>"
    using flaky_server_answers(2) by (simp add: ok_page_def)
  note a3 = flaky_server_answers(3)
  have total: "declared_total ?d = 2500" by (simp add: declared_total_def)
  have later: "map (page_request validConfig) (later_pages (declared_total ?d))
                 = [page_request validConfig 1, page_request validConfig 2]"
    by (simp add: total later_pages_values)
  note T = later_page_failures_swallowed[of validConfig flaky_server]
  note T2 = T[THEN conjunct2, THEN conjunct1, rule_format, of ?r ?d, unfolded later]
  note T3 = T[THEN conjunct2, THEN conjunct2, rule_format, of "page_request validConfig 2"]
  from first have pre: "flaky_server (first_request validConfig) = Inr ?r \<and> ok ?r \<and> json ?r = Inr (Some ?d)"
    by simp
  have log: "snd (fetchAllContentfulItems validConfig flaky_server) = ?reqs"
    using T2[OF pre] by blast
  have e3: "received_entries flaky_server (page_request validConfig 2) = []"
    and t3: "\<not> body_throws flaky_server (page_request validConfig 2)"
    using T3 a3 by simp_all
  have e1: "received_entries flaky_server (first_request validConfig) = numbered_entries 0 1000"
    by (simp add: received_entries_def a1)
  have e2: "received_entries flaky_server (page_request validConfig 1) = numbered_entries 1000 2000"
    using a2 by (simp add: received_entries_def)
  have t1: "\<not> body_throws flaky_server (first_request validConfig)"
    using numbered_entries_props(4)[of 0 1000] by (simp add: body_throws_def a1)
  have t2: "\<not> body_throws flaky_server (page_request validConfig 1)"
    using numbered_entries_props(4)[of 1000 2000] a2 by (simp add: body_throws_def)
  have reads: "\<forall>q \<in> set ?reqs. \<not> body_throws flaky_server q"
    using t1 t2 t3 by (simp only: list.set ball_simps insert_iff) blast
  have all_recv: "concat (map (received_entries flaky_server) ?reqs) = ?es"
    by (simp only: list.map concat.simps e1 e2 e3 append_Nil2)
  from T2[OF pre] reads
  have "fst (fetchAllContentfulItems validConfig flaky_server)
          = Inr (map_of (rev (map (binding validConfig) (filter (stored validConfig)
                   (concat (map (received_entries flaky_server) ?reqs))))))"
    by blast
  then have res: "fst (fetchAllContentfulItems validConfig flaky_server)
          = Inr (map_of (rev (map (binding validConfig) (filter (stored validConfig) ?es))))"
    by (simp only: all_recv)
  have st: "list_all (stored validConfig) ?es"
    by (simp add: numbered_entries_props(3))
  have di: "distinct (map (entry_key validConfig) ?es)"
    by (rule numbered_keys_distinct) simp
  note D = stored_map_dom[OF st di]
  have card: "card (dom (map_of (rev (map (binding validConfig) (filter (stored validConfig) ?es))))) = 2000"
    using D(2) by (simp add: numbered_entries_props(1))
  from res card D(1)
  have ex: "\<exists>m. fst (fetchAllContentfulItems validConfig flaky_server) = Inr m \<and>
        card (dom m) = 2000 \<and>
        dom m = (\<lambda>e. the (entry_key validConfig e)) ` set ?es"
    by blast
  from nf a1 a2 a3 e3 log ex show ?thesis by (intro conjI)
qed

subsection \<open>What each call makes of a status that is not ok\<close>

lemma show_nat_401: "show_nat 401 = ''401''"
  by (simp add: show_nat.simps digit_char_def)

text \<open>
  Claim C7, as stated: one status mapping for every gateway call, \<open>fetchAllContentfulItems\<close>
  included, with 401 and 403 giving an invalid-credentials condition and every other status
  that is not 2xx or 404 giving a failure that carries the status code. On a 401
  \<open>fetchAllContentfulItems\<close> throws \<^verbatim>\<open>HTTP 401: Unauthorized\<close> where \<open>fetchLocales\<close> throws
  \<^verbatim>\<open>Invalid API credentials\<close>, and \<open>validateContentType\<close> answers
  \<^verbatim>\<open>Content type check failed\<close>; on a 500 the message of \<open>fetchLocales\<close> carries no status code.
\<close>

theorem uniform_status_mapping_counterexample:
  "fst (fetchAllContentfulItems validConfig (status_server 401 ''Unauthorized''))
     = Inl (JsError ''Error'' ''Failed to fetch Contentful items: HTTP 401: Unauthorized'') \<and>
   fetchLocales validConfig (status_server 401 ''Unauthorized'')
     = Inl (JsError ''Error'' ''Failed to load locales: Invalid API credentials'') \<and>
   fetchLocales validConfig (status_server 500 ''Internal Server Error'')
     = Inl (JsError ''Error'' ''Failed to load locales: Failed to fetch locales'') \<and>
   validation_error (validateContentType validConfig (status_server 401 ''Unauthorized''))
     = Some ''Content type check failed''"
  by (simp add: fetchAllContentfulItems_def fetch_pages_def fetchLocales_def validateContentType_def
        status_server_def ok_def Let_def show_nat_401)

lemma fetchLocales_status:
  assumes "\<not> ok r"
  shows "fetchLocales config (answering r) =
           Inl (JsError ''Error'' (''Failed to load locales: '' @
                  (if status r = 401 \<or> status r = 403 then ''Invalid API credentials''
                   else if status r = 404 then ''Space or environment not found''
                   else ''Failed to fetch locales'')))"
  using assms by (simp add: fetchLocales_def answering_def Let_def)

lemma fetchTranslations_status:
  assumes "\<not> ok r" and "trim locale \<noteq> []"
  shows "fetchTranslations config (answering r) locale =
           Inl (JsError ''Error'' (''Failed to load translations: '' @
                  (if status r = 401 \<or> status r = 403 then ''Invalid API credentials''
                   else if status r = 404 then ''Content type not found''
                   else ''Failed to fetch translations'')))"
  using assms by (simp add: fetchTranslations_def answering_def Let_def)

lemma fetchContentTypes_status:
  assumes "\<not> ok r"
  shows "fetchContentTypes config (answering r) =
           Inl (JsError ''Error'' (''Failed to load content types: '' @
                  (if status r = 401 \<or> status r = 403 then ''Invalid API credentials''
                   else if status r = 404 then ''Space or environment not found''
                   else ''Failed to fetch content types'')))"
  using assms by (simp add: fetchContentTypes_def answering_def Let_def)

lemma fetchRecords_status:
  assumes "\<not> ok r"
  shows "fetchRecords config (answering r) contentType =
           Inl (JsError ''Error'' (''Failed to load records: '' @
                  (if status r = 401 \<or> status r = 403 then ''Invalid API credentials''
                   else if status r = 404 then ''Content type not found''
                   else ''Failed to fetch records'')))"
  using assms by (simp add: fetchRecords_def answering_def Let_def)

lemma validateContentType_status:
  assumes "\<not> ok r"
  shows "validateContentType config (answering r) =
           \<lparr>valid = False,
            validation_error = Some (if status r = 404 then ''Content type not found''
                                     else ''Content type check failed'')\<rparr>"
  using assms by (simp add: validateContentType_def answering_def Let_def)

lemma fetchAll_status:
  assumes "\<not> ok r"
  shows "fst (fetchAllContentfulItems config (answering r)) =
           Inl (JsError ''Error'' (''Failed to fetch Contentful items: HTTP '' @ show_nat (status r)
                  @ '': '' @ statusText r))"
  using assms by (simp add: fetchAllContentfulItems_def fetch_pages_def answering_def Let_def)

lemma save_status:
  assumes "\<not> ok r"
  shows "fst (saveItemToContentful config (answering r) item) =
           (if isUpdate item \<and> entryId item \<noteq> None \<and> entryId item \<noteq> Some []
            then stage_failure ''Could not fetch entry'' r
                   (no_details\<lparr>operation := Some ''fetch'', details_entryId := entryId item\<rparr>)
            else stage_failure ''Create failed'' r
                   (no_details\<lparr>operation := Some ''create'', details_key := Some (save_key item)\<rparr>))"
  using assms
  by (auto simp: saveItemToContentful_def save_update_def save_create_def answering_def Let_def
        split: option.splits)

text \<open>
  Claim C7, amended. For every response whose status is not in 200..299: \<open>fetchLocales\<close>,
  \<open>fetchTranslations\<close>, \<open>fetchContentTypes\<close> and \<open>fetchRecords\<close> throw
  \<^verbatim>\<open>Invalid API credentials\<close> on 401 and 403, the not-found message of the call on 404 (space
  or environment for locales and content types, content type for translations and records),
  and on any other status a fixed message of the call that does not carry the status code;
  \<open>validateContentType\<close> answers \<^verbatim>\<open>Content type not found\<close> on 404 and
  \<^verbatim>\<open>Content type check failed\<close> on every other status; \<open>fetchAllContentfulItems\<close> throws
  \<^verbatim>\<open>HTTP <status>: <statusText>\<close> on every status; \<open>saveItemToContentful\<close> returns the failure
  of its first stage with the status code.
\<close>

theorem status_mapping_by_call:
  assumes "\<not> (200 \<le> st \<and> st \<le> 299)" and "trim loc \<noteq> []"
  shows
   "fetchLocales config (answering \<lparr>status = st, statusText = phrase, text_body = tb, json = jl\<rparr>) =
      Inl (JsError ''Error'' (''Failed to load locales: '' @
             (if st = 401 \<or> st = 403 then ''Invalid API credentials''
              else if st = 404 then ''Space or environment not found''
              else ''Failed to fetch locales''))) \<and>
    fetchTranslations config (answering \<lparr>status = st, statusText = phrase, text_body = tb, json = jt\<rparr>) loc =
      Inl (JsError ''Error'' (''Failed to load translations: '' @
             (if st = 401 \<or> st = 403 then ''Invalid API credentials''
              else if st = 404 then ''Content type not found''
              else ''Failed to fetch translations''))) \<and>
    fetchContentTypes config (answering \<lparr>status = st, statusText = phrase, text_body = tb, json = jc\<rparr>) =
      Inl (JsError ''Error'' (''Failed to load content types: '' @
             (if st = 401 \<or> st = 403 then ''Invalid API credentials''
              else if st = 404 then ''Space or environment not found''
              else ''Failed to fetch content types''))) \<and>
    fetchRecords config (answering \<lparr>status = st, statusText = phrase, text_body = tb, json = jr\<rparr>) contentType =
      Inl (JsError ''Error'' (''Failed to load records: '' @
             (if st = 401 \<or> st = 403 then ''Invalid API credentials''
              else if st = 404 then ''Content type not found''
              else ''Failed to fetch records''))) \<and>
    validateContentType config (answering \<lparr>status = st, statusText = phrase, text_body = tb, json = jv\<rparr>) =
      \<lparr>valid = False,
       validation_error = Some (if st = 404 then ''Content type not found''
                                else ''Content type check failed'')\<rparr> \<and>
    fst (fetchAllContentfulItems config
           (answering \<lparr>status = st, statusText = phrase, text_body = tb, json = ja\<rparr>)) =
      Inl (JsError ''Error'' (''Failed to fetch Contentful items: HTTP '' @ show_nat st @ '': '' @ phrase)) \<and>
    fst (saveItemToContentful config
           (answering \<lparr>status = st, statusText = phrase, text_body = tb, json = js\<rparr>) item) =
      \<lparr>success = False,
       error = Some ((if isUpdate item \<and> entryId item \<noteq> None \<and> entryId item \<noteq> Some []
                      then ''Could not fetch entry'' else ''Create failed'')
                     @ '' ('' @ show_nat st @ '')''),
       details = Some (if isUpdate item \<and> entryId item \<noteq> None \<and> entryId item \<noteq> Some []
                       then no_details\<lparr>details_status := Some st, details_response := Some tb,
                              operation := Some ''fetch'', details_entryId := entryId item\<rparr>
                       else no_details\<lparr>details_status := Some st, details_response := Some tb,
                              operation := Some ''create'', details_key := Some (save_key item)\<rparr>)\<rparr>"
proof -
  have n: "\<not> ok \<lparr>status = st, statusText = phrase, text_body = tb, json = j\<rparr>" for j :: "thrown + 'x"
    using assms(1) by (simp add: ok_def)
  show ?thesis
    using fetchLocales_status[OF n, of config jl]
          fetchTranslations_status[OF n assms(2), of config jt]
          fetchContentTypes_status[OF n, of config jc]
          fetchRecords_status[OF n, of config jr contentType]
          validateContentType_status[OF n, of config jv]
          fetchAll_status[OF n, of config ja]
          save_status[OF n, of config js item]
    by (simp add: stage_failure_def no_details_def)
qed

theorem status_mapping_by_call_witness:
  "\<not> (200 \<le> (401::nat) \<and> (401::nat) \<le> 299) \<and> trim ''en-US'' \<noteq> [] \<and>
   fetchLocales validConfig (answering \<lparr>status = 401, statusText = ''Unauthorized'', text_body = [],
        json = Inl (JsError ''SyntaxError'' ''Unexpected end of JSON input'')\<rparr>)
     = Inl (JsError ''Error'' ''Failed to load locales: Invalid API credentials'') \<and>
   fst (fetchAllContentfulItems validConfig (answering \<lparr>status = 401, statusText = ''Unauthorized'',
        text_body = [], json = Inl (JsError ''SyntaxError'' ''Unexpected end of JSON input'')\<rparr>))
     = Inl (JsError ''Error'' ''Failed to fetch Contentful items: HTTP 401: Unauthorized'') \<and>
   validateContentType validConfig (answering \<lparr>status = 401, statusText = ''Unauthorized'',
        text_body = [], json = Inl (JsError ''SyntaxError'' ''Unexpected end of JSON input'')\<rparr>)
     = \<lparr>valid = False, validation_error = Some ''Content type check failed''\<rparr>"
proof -
  have t: "trim ''en-US'' \<noteq> []"
    by (simp add: trim_def js_space_def)
  have s: "\<not> (200 \<le> (401::nat) \<and> (401::nat) \<le> 299)" by simp
  note T = status_mapping_by_call[where st = 401 and loc = "''en-US''" and config = validConfig
         and phrase = "''Unauthorized''" and tb = "[]"
         and jl = "Inl (JsError ''SyntaxError'' ''Unexpected end of JSON input'')"
         and ja = "Inl (JsError ''SyntaxError'' ''Unexpected end of JSON input'')"
         and jv = "Inl (JsError ''SyntaxError'' ''Unexpected end of JSON input'')"]
  note U = T[OF s t]
  note locales = U[THEN conjunct1]
  note validate = U[THEN conjunct2, THEN conjunct2, THEN conjunct2, THEN conjunct2, THEN conjunct1]
  note all_items = U[THEN conjunct2, THEN conjunct2, THEN conjunct2, THEN conjunct2, THEN conjunct2,
                     THEN conjunct1]
  from locales validate all_items s t show ?thesis
    by (simp add: show_nat_401)
qed

end
